theory Spec2Isabelle
  imports Complex_Main "HOL-Library.Multiset"
begin

section \<open>Values shared by the two analyzers\<close>

text \<open>
  A pandas \<open>Timestamp\<close> is a count of nanoseconds since the epoch, and the difference of
  two timestamps is a \<open>Timedelta\<close>, again a count of nanoseconds. The attribute
  \<open>.days\<close> of a \<open>Timedelta\<close> is the floor of the count divided by the nanoseconds of
  a day (so that \<open>Timedelta(-1 ns).days = -1\<close>), which is what \<open>div\<close> on \<open>int\<close> computes.
\<close>

type_synonym timestamp = int
type_synonym timedelta = int

definition ns_per_day :: int where
  "ns_per_day = 86400000000000"

definition days :: "timedelta \<Rightarrow> int" where
  "days td = td div ns_per_day"

text \<open>The exceptions the modelled methods raise or let through.\<close>

datatype py_error =
  ImportError | ValueError | IndexError | KeyError | AttributeError | UnboundLocalError

subsection \<open>Python and numpy helpers\<close>

text \<open>\<open>str(i)\<close> for a non-negative integer, as the f-strings \<open>f'cp_{i}'\<close> render it.\<close>

definition digit_char :: "nat \<Rightarrow> char" where
  "digit_char d = ''0123456789'' ! d"

function str_nat :: "nat \<Rightarrow> string" where
  "str_nat n = (if n < 10 then [digit_char n] else str_nat (n div 10) @ [digit_char (n mod 10)])"
  by pat_completeness auto
termination
  by (relation "measure id") auto

declare str_nat.simps [simp del]

definition startswith :: "string \<Rightarrow> string \<Rightarrow> bool" where
  "startswith s p = (take (length p) s = p)"

text \<open>\<open>int(x)\<close> on a float truncates towards zero.\<close>

definition py_int :: "real \<Rightarrow> int" where
  "py_int x = (if 0 \<le> x then \<lfloor>x\<rfloor> else \<lceil>x\<rceil>)"

text \<open>
  Indexing a list or a pandas index with an integer: negative positions count from the
  end, and a position outside the sequence raises \<open>IndexError\<close>.
\<close>

definition getitem :: "'a list \<Rightarrow> int \<Rightarrow> py_error + 'a" where
  "getitem xs i =
     (if 0 \<le> i \<and> i < int (length xs) then Inr (xs ! nat i)
      else if i < 0 \<and> - int (length xs) \<le> i then Inr (xs ! nat (int (length xs) + i))
      else Inl IndexError)"

text \<open>Sequencing of computations that may raise: the first exception ends the run.\<close>

definition bind_err :: "py_error + 'a \<Rightarrow> ('a \<Rightarrow> py_error + 'b) \<Rightarrow> py_error + 'b" where
  "bind_err r f = (case r of Inl e \<Rightarrow> Inl e | Inr v \<Rightarrow> f v)"

text \<open>A \<open>for\<close> loop over a list that updates a local state and may raise.\<close>

fun for_each :: "('a \<Rightarrow> 's \<Rightarrow> py_error + 's) \<Rightarrow> 'a list \<Rightarrow> 's \<Rightarrow> py_error + 's" where
  "for_each body [] s = Inr s"
| "for_each body (x # xs) s = bind_err (body x s) (for_each body xs)"

text \<open>
  \<open>np.mean\<close>, \<open>np.std\<close> (population standard deviation) and \<open>np.median\<close> on a
  non-empty array, in exact real arithmetic. On an empty array numpy yields NaN; the
  callers below test for the empty array where NaN would make them raise.
\<close>

definition np_mean :: "real list \<Rightarrow> real" where
  "np_mean xs = sum_list xs / real (length xs)"

definition np_std :: "real list \<Rightarrow> real" where
  "np_std xs = sqrt (np_mean (map (\<lambda>x. (x - np_mean xs)\<^sup>2) xs))"

definition np_median :: "real list \<Rightarrow> real" where
  "np_median xs =
     (let s = sort xs; n = length xs
      in if odd n then s ! (n div 2) else (s ! (n div 2 - 1) + s ! (n div 2)) / 2)"

section \<open>bayesian\_change\_point.py: event association\<close>

text \<open>A row of the event catalog \<open>events_df\<close>, with the column names of the source.\<close>

record event =
  Date :: timestamp
  Event_Category :: string
  Event_Description :: string
  Impact_Direction :: string
  Impact_Magnitude :: string
  Confidence_Level :: string

text \<open>The dictionary \<open>identify_change_points\<close> builds for each change point.\<close>

record change_point =
  change_point_name :: string
  mean_index :: int
  median_index :: int
  mean_date :: timestamp
  median_date :: timestamp
  std :: real
  hdi_lower :: int
  hdi_upper :: int
  hdi_lower_date :: timestamp
  hdi_upper_date :: timestamp
  samples :: "real list"

text \<open>The dictionary appended to \<open>associated_events\<close> for an event inside the window.\<close>

record associated_event =
  event_date :: timestamp
  days_from_cp :: int
  event_category :: string
  event_description :: string
  impact_direction :: string
  impact_magnitude :: string
  confidence_level :: string

record association =
  change_point_date :: timestamp
  change_point_index :: int
  associated_events :: "associated_event list"

text \<open>
  The inner loop of \<open>associate_with_events\<close> over \<open>events_df.iterrows()\<close>: the day
  distance is \<open>abs((cp_date - event_date).days)\<close>, and the event is appended when the
  distance is at most \<open>window_days\<close>.
\<close>

fun collect_events :: "timestamp \<Rightarrow> int \<Rightarrow> event list \<Rightarrow> associated_event list" where
  "collect_events cp_date window_days [] = []"
| "collect_events cp_date window_days (ev # rest) =
     (let ev_date = Date ev;
          days_diff = \<bar>days (cp_date - ev_date)\<bar>
      in if days_diff \<le> window_days
         then \<lparr>event_date = ev_date,
               days_from_cp = days_diff,
               event_category = Event_Category ev,
               event_description = Event_Description ev,
               impact_direction = Impact_Direction ev,
               impact_magnitude = Impact_Magnitude ev,
               confidence_level = Confidence_Level ev\<rparr>
              # collect_events cp_date window_days rest
         else collect_events cp_date window_days rest)"

text \<open>
  One pass of the outer loop. Python's \<open>list.sort(key=...)\<close> is stable, as is the
  insertion sort \<open>sort_key\<close>.
\<close>

definition associate_one :: "event list \<Rightarrow> int \<Rightarrow> change_point \<Rightarrow> association" where
  "associate_one events window_days cp =
     (let cp_date = mean_date cp;
          found = collect_events cp_date window_days events
      in \<lparr>change_point_date = cp_date,
          change_point_index = mean_index cp,
          associated_events = sort_key days_from_cp found\<rparr>)"

text \<open>
  \<open>associate_with_events\<close>: \<open>self.change_points\<close> and \<open>self.events_df\<close> are either
  \<open>None\<close> or hold a value; the method returns \<open>None\<close> when either is \<open>None\<close>, and the
  list of associations otherwise.
\<close>

definition associate_with_events ::
  "change_point list option \<Rightarrow> event list option \<Rightarrow> int \<Rightarrow> association list option" where
  "associate_with_events change_points events_df window_days =
     (case change_points of
        None \<Rightarrow> None
      | Some cps \<Rightarrow>
          (case events_df of
             None \<Rightarrow> None
           | Some events \<Rightarrow> Some (map (associate_one events window_days) cps)))"

text \<open>The entry the loop builds for an event, whether or not it is kept.\<close>

definition entry_of :: "timestamp \<Rightarrow> event \<Rightarrow> associated_event" where
  "entry_of cp_date ev =
     \<lparr>event_date = Date ev,
      days_from_cp = \<bar>days (cp_date - Date ev)\<bar>,
      event_category = Event_Category ev,
      event_description = Event_Description ev,
      impact_direction = Impact_Direction ev,
      impact_magnitude = Impact_Magnitude ev,
      confidence_level = Confidence_Level ev\<rparr>"

section \<open>bayesian\_change\_point.py: the model\<close>

text \<open>
  What \<open>pm.Model()\<close> records: the random variables in the order they are declared,
  each with its name, its distribution and, for an observed variable, its data. A
  parameter of a distribution is a number, a variable declared before, or a sum of these
  (\<open>change_points[i-1] + 50\<close>).
\<close>

datatype expr = Num real | Var string | Add expr expr

datatype dist =
    DiscreteUniform expr expr
  | Normal expr expr
  | HalfNormal expr

record random_variable =
  rv_name :: string
  rv_dist :: dist
  observed :: "real list option"

type_synonym model = "random_variable list"

definition free_rv :: "string \<Rightarrow> dist \<Rightarrow> random_variable" where
  "free_rv name d = \<lparr>rv_name = name, rv_dist = d, observed = None\<rparr>"

text \<open>
  The body of the first loop, \<open>for i in range(n_change_points)\<close>; the state is the
  model and the local list \<open>change_points\<close>. \<open>int(0.8*n)\<close> and \<open>int(0.9*n)\<close> are
  taken in exact arithmetic.
\<close>

definition cp_step :: "nat \<Rightarrow> nat \<Rightarrow> model \<times> random_variable list \<Rightarrow> model \<times> random_variable list" where
  "cp_step n i st =
     (let change_points = snd st;
          cp = (if i = 0
                then free_rv (''cp_'' @ str_nat i)
                       (DiscreteUniform (Num 50) (Num (of_int (py_int (0.8 * real n)))))
                else free_rv (''cp_'' @ str_nat i)
                       (DiscreteUniform (Add (Var (rv_name (change_points ! (i - 1)))) (Num 50))
                                        (Num (of_int (py_int (0.9 * real n))))))
      in (fst st @ [cp], change_points @ [cp]))"

text \<open>
  The body of the second loop, \<open>for i in range(n_change_points + 1)\<close>; the state is the
  model and the local lists \<open>mu_priors\<close> and \<open>sigma_priors\<close>.
\<close>

definition prior_step ::
  "nat \<Rightarrow> model \<times> random_variable list \<times> random_variable list
       \<Rightarrow> model \<times> random_variable list \<times> random_variable list" where
  "prior_step i st =
     (let mu = free_rv (''mu_'' @ str_nat i) (Normal (Num 0) (Num 0.1));
          sigma = free_rv (''sigma_'' @ str_nat i) (HalfNormal (Num 0.1))
      in (fst st @ [mu, sigma], fst (snd st) @ [mu], snd (snd st) @ [sigma]))"

text \<open>
  \<open>build_bayesian_change_point_model\<close>, given the module flag \<open>PYMCMC_AVAILABLE\<close> and
  the values \<open>y\<close> of \<open>self.log_returns\<close>. \<open>range\<close> of a non-positive number is empty, and
  \<open>mu_priors[0]\<close> raises \<open>IndexError\<close> on the empty list.
\<close>

definition build_bayesian_change_point_model ::
  "bool \<Rightarrow> real list \<Rightarrow> int \<Rightarrow> py_error + model" where
  "build_bayesian_change_point_model PYMCMC_AVAILABLE y n_change_points =
     (if \<not> PYMCMC_AVAILABLE then Inl ImportError
      else
        let n = length y;
            st1 = fold (cp_step n) [0 ..< nat n_change_points] ([], []);
            st2 = fold prior_step [0 ..< nat (n_change_points + 1)] (fst st1, [], []);
            mu_priors = fst (snd st2);
            sigma_priors = snd (snd st2)
        in bind_err (getitem mu_priors 0) (\<lambda>mu0.
           bind_err (getitem sigma_priors 0) (\<lambda>sigma0.
             Inr (fst st2 @ [\<lparr>rv_name = ''likelihood'',
                              rv_dist = Normal (Var (rv_name mu0)) (Var (rv_name sigma0)),
                              observed = Some y\<rparr>]))))"

text \<open>The variables a distribution's parameters mention.\<close>

fun expr_vars :: "expr \<Rightarrow> string list" where
  "expr_vars (Num c) = []"
| "expr_vars (Var v) = [v]"
| "expr_vars (Add a b) = expr_vars a @ expr_vars b"

fun dist_vars :: "dist \<Rightarrow> string list" where
  "dist_vars (DiscreteUniform lo hi) = expr_vars lo @ expr_vars hi"
| "dist_vars (Normal m s) = expr_vars m @ expr_vars s"
| "dist_vars (HalfNormal s) = expr_vars s"

definition observed_rvs :: "model \<Rightarrow> random_variable list" where
  "observed_rvs m = filter (\<lambda>rv. observed rv \<noteq> None) m"

definition free_rvs :: "model \<Rightarrow> random_variable list" where
  "free_rvs m = filter (\<lambda>rv. observed rv = None) m"

section \<open>bayesian\_change\_point.py: change points and regimes\<close>

text \<open>
  \<open>self.trace.posterior\<close>: the sampled variables in the order of \<open>data_vars\<close>, each with
  its flattened array of draws. The names of a dataset are distinct.
\<close>

type_synonym trace = "(string \<times> real list) list"

text \<open>The body of the loop of \<open>identify_change_points\<close> over \<open>cp_samples.items()\<close>.
  \<open>az.hdi\<close> is a parameter. \<open>int\<close> of NaN, the mean of an empty array, raises
  \<open>ValueError\<close>.\<close>

definition analyse_change_point ::
  "(real list \<Rightarrow> real \<times> real) \<Rightarrow> timestamp list \<Rightarrow> string \<times> real list
     \<Rightarrow> change_point list \<Rightarrow> py_error + change_point list" where
  "analyse_change_point hdi idx item change_points_analysis =
     (let cp_name = fst item; smp = snd item
      in if smp = [] then Inl ValueError
         else
           let mean_cp = py_int (np_mean smp);
               median_cp = py_int (np_median smp);
               std_cp = np_std smp;
               hdi_l = fst (hdi smp);
               hdi_u = snd (hdi smp)
           in bind_err (getitem idx mean_cp) (\<lambda>mean_d.
              bind_err (getitem idx median_cp) (\<lambda>median_d.
              bind_err (getitem idx (py_int hdi_l)) (\<lambda>hdi_l_d.
              bind_err (getitem idx (py_int hdi_u)) (\<lambda>hdi_u_d.
                Inr (change_points_analysis @
                  [\<lparr>change_point_name = cp_name,
                    mean_index = mean_cp,
                    median_index = median_cp,
                    mean_date = mean_d,
                    median_date = median_d,
                    std = std_cp,
                    hdi_lower = py_int hdi_l,
                    hdi_upper = py_int hdi_u,
                    hdi_lower_date = hdi_l_d,
                    hdi_upper_date = hdi_u_d,
                    samples = smp\<rparr>]))))))"

definition identify_change_points ::
  "(real list \<Rightarrow> real \<times> real) \<Rightarrow> timestamp list \<Rightarrow> trace option
     \<Rightarrow> py_error + change_point list" where
  "identify_change_points hdi idx trace =
     (case trace of
        None \<Rightarrow> Inl ValueError
      | Some posterior \<Rightarrow>
          let cp_samples = filter (\<lambda>item. startswith (fst item) ''cp_'') posterior
          in bind_err (for_each (analyse_change_point hdi idx) cp_samples [])
               (\<lambda>change_points_analysis. Inr (sort_key mean_date change_points_analysis)))"

record regime =
  regime :: nat
  start_date :: timestamp
  end_date :: timestamp
  duration_days :: int
  mu_mean :: real
  mu_std :: real
  sigma_mean :: real
  sigma_std :: real
  annualized_volatility :: real

text \<open>The \<open>if\<close>/\<open>elif\<close>/\<open>else\<close> that computes the dates of regime \<open>i\<close>.\<close>

definition regime_dates ::
  "timestamp list \<Rightarrow> change_point list \<Rightarrow> nat \<Rightarrow> py_error + timestamp \<times> timestamp" where
  "regime_dates idx change_points i =
     (if i = 0 then
        bind_err (getitem idx 0) (\<lambda>start.
          if change_points \<noteq> []
          then bind_err (getitem change_points 0) (\<lambda>cp. Inr (start, mean_date cp))
          else bind_err (getitem idx (- 1)) (\<lambda>e. Inr (start, e)))
      else if i < length change_points then
        bind_err (getitem change_points (int i - 1)) (\<lambda>cp0.
        bind_err (getitem change_points (int i)) (\<lambda>cp1.
          Inr (mean_date cp0, mean_date cp1)))
      else
        bind_err (getitem change_points (- 1)) (\<lambda>cp.
        bind_err (getitem idx (- 1)) (\<lambda>e.
          Inr (mean_date cp, e))))"

text \<open>The body of the loop \<open>for i in range(len(mu_samples))\<close>.\<close>

definition regime_step ::
  "timestamp list \<Rightarrow> change_point list \<Rightarrow> trace \<Rightarrow> trace \<Rightarrow> nat
     \<Rightarrow> regime list \<Rightarrow> py_error + regime list" where
  "regime_step idx change_points mu_samples sigma_samples i regime_analysis =
     (let mu_name = ''mu_'' @ str_nat i;
          sigma_name = ''sigma_'' @ str_nat i
      in case (map_of mu_samples mu_name, map_of sigma_samples sigma_name) of
           (Some mu_s, Some sigma_s) \<Rightarrow>
             bind_err (regime_dates idx change_points i) (\<lambda>dates.
               Inr (regime_analysis @
                 [\<lparr>regime = i,
                   start_date = fst dates,
                   end_date = snd dates,
                   duration_days = days (snd dates - fst dates),
                   mu_mean = np_mean mu_s,
                   mu_std = np_std mu_s,
                   sigma_mean = np_mean sigma_s,
                   sigma_std = np_std sigma_s,
                   annualized_volatility = np_mean sigma_s * sqrt 252 * 100\<rparr>]))
         | _ \<Rightarrow> Inr regime_analysis)"

text \<open>
  \<open>quantify_regime_impacts\<close>; \<open>self.change_points\<close> is \<open>None\<close> until change points are
  identified, and reading \<open>self.trace.posterior\<close> of a trace that is \<open>None\<close> raises
  \<open>AttributeError\<close>.
\<close>

definition quantify_regime_impacts ::
  "timestamp list \<Rightarrow> trace option \<Rightarrow> change_point list option \<Rightarrow> py_error + regime list" where
  "quantify_regime_impacts idx trace change_points =
     (case change_points of
        None \<Rightarrow> Inl ValueError
      | Some cps \<Rightarrow>
          (case trace of
             None \<Rightarrow> Inl AttributeError
           | Some posterior \<Rightarrow>
               let mu_samples = filter (\<lambda>item. startswith (fst item) ''mu_'') posterior;
                   sigma_samples = filter (\<lambda>item. \<not> startswith (fst item) ''mu_''
                                              \<and> startswith (fst item) ''sigma_'') posterior
               in for_each (regime_step idx cps mu_samples sigma_samples)
                    [0 ..< length mu_samples] []))"

section \<open>Closed forms of the declared variables\<close>

text \<open>
  The variables the two loops of \<open>build_bayesian_change_point_model\<close> declare at
  step \<open>i\<close>, and the observed variable declared last; the properties below show that
  the model consists of exactly these.
\<close>

definition cp_rv :: "nat \<Rightarrow> nat \<Rightarrow> random_variable" where
  "cp_rv n i =
     free_rv (''cp_'' @ str_nat i)
       (if i = 0 then DiscreteUniform (Num 50) (Num (of_int (py_int (0.8 * real n))))
        else DiscreteUniform (Add (Var (''cp_'' @ str_nat (i - 1))) (Num 50))
                             (Num (of_int (py_int (0.9 * real n)))))"

definition mu_rv :: "nat \<Rightarrow> random_variable" where
  "mu_rv i = free_rv (''mu_'' @ str_nat i) (Normal (Num 0) (Num 0.1))"

definition sigma_rv :: "nat \<Rightarrow> random_variable" where
  "sigma_rv i = free_rv (''sigma_'' @ str_nat i) (HalfNormal (Num 0.1))"

definition likelihood_rv :: "real list \<Rightarrow> random_variable" where
  "likelihood_rv y =
     \<lparr>rv_name = ''likelihood'', rv_dist = Normal (Var ''mu_0'') (Var ''sigma_0''),
      observed = Some y\<rparr>"

definition likelihood_vars :: "model \<Rightarrow> string list" where
  "likelihood_vars m = concat (map (\<lambda>rv. dist_vars (rv_dist rv)) (observed_rvs m))"

section \<open>Floating-point values and pandas series\<close>

text \<open>
  A float is a finite number, an infinity or NaN; the finite numbers are taken as exact
  reals (no rounding, overflow or underflow). Division and \<open>np.log\<close> follow IEEE 754 on
  the special values; zero is taken as positive.
\<close>

datatype fval = Finite real | PosInf | NegInf | NaN

fun fdiv :: "fval \<Rightarrow> fval \<Rightarrow> fval" where
  "fdiv NaN b = NaN"
| "fdiv a NaN = NaN"
| "fdiv (Finite x) (Finite y) =
     (if y \<noteq> 0 then Finite (x / y)
      else if 0 < x then PosInf else if x < 0 then NegInf else NaN)"
| "fdiv (Finite x) PosInf = Finite 0"
| "fdiv (Finite x) NegInf = Finite 0"
| "fdiv PosInf (Finite y) = (if 0 \<le> y then PosInf else NegInf)"
| "fdiv NegInf (Finite y) = (if 0 \<le> y then NegInf else PosInf)"
| "fdiv PosInf PosInf = NaN"
| "fdiv PosInf NegInf = NaN"
| "fdiv NegInf PosInf = NaN"
| "fdiv NegInf NegInf = NaN"

fun fsub :: "fval \<Rightarrow> real \<Rightarrow> fval" where
  "fsub (Finite x) c = Finite (x - c)"
| "fsub v c = v"

fun flog :: "fval \<Rightarrow> fval" where
  "flog (Finite x) = (if 0 < x then Finite (ln x) else if x = 0 then NegInf else NaN)"
| "flog PosInf = PosInf"
| "flog NegInf = NaN"
| "flog NaN = NaN"

text \<open>
  A series is its index and its values, row by row. \<open>shift(1)\<close> moves the values one row
  down under the same index and fills the first row with NaN; arithmetic between two
  series over the same index is row by row; \<open>dropna\<close> removes the rows whose value is
  NaN.
\<close>

type_synonym series = "(timestamp \<times> fval) list"

definition shift1 :: "series \<Rightarrow> series" where
  "shift1 s = zip (map fst s) (NaN # butlast (map snd s))"

definition series_map2 :: "(fval \<Rightarrow> fval \<Rightarrow> fval) \<Rightarrow> series \<Rightarrow> series \<Rightarrow> series" where
  "series_map2 f a b = map (\<lambda>(ra, rb). (fst ra, f (snd ra) (snd rb))) (zip a b)"

definition series_map :: "(fval \<Rightarrow> fval) \<Rightarrow> series \<Rightarrow> series" where
  "series_map f a = map (\<lambda>r. (fst r, f (snd r))) a"

definition dropna :: "series \<Rightarrow> series" where
  "dropna s = filter (\<lambda>r. snd r \<noteq> NaN) s"

section \<open>time\_series\_analysis.py: preprocessing\<close>

text \<open>
  \<open>pd.to_datetime\<close>, with or without a format, is a parameter: it raises, or returns
  \<open>NaT\<close> (\<open>None\<close>) or a timestamp. The inner \<open>try\<close> of \<open>parse_date\<close> returns the
  result of the first format that does not raise.
\<close>

type_synonym to_datetime = "string option \<Rightarrow> string \<Rightarrow> py_error + timestamp option"

definition date_formats :: "string list" where
  "date_formats = [''%d-%b-%y'', ''%d-%b-%Y'', ''%b %d, %Y'', ''%Y-%m-%d'']"

fun try_formats :: "to_datetime \<Rightarrow> string list \<Rightarrow> string \<Rightarrow> timestamp option option" where
  "try_formats to_dt [] date_str = None"
| "try_formats to_dt (fmt # fmts) date_str =
     (case to_dt (Some fmt) date_str of
        Inr r \<Rightarrow> Some r
      | Inl e \<Rightarrow> try_formats to_dt fmts date_str)"

definition parse_date :: "to_datetime \<Rightarrow> string \<Rightarrow> timestamp option" where
  "parse_date to_dt date_str =
     (case try_formats to_dt date_formats date_str of
        Some r \<Rightarrow> r
      | None \<Rightarrow> (case to_dt None date_str of Inr r \<Rightarrow> r | Inl e \<Rightarrow> None))"

text \<open>
  The frame while it is cleaned: the Date column after \<open>apply(parse_date)\<close> and the
  Price column as read. \<open>pd.to_numeric(errors='coerce')\<close> is a parameter that returns
  NaN where the text is no number. \<open>sort_values('Date')\<close> sorts the rows by date; the
  order in which it leaves rows of equal date is not used below.
\<close>

definition clean_frame :: "to_datetime \<Rightarrow> (string \<Rightarrow> fval) \<Rightarrow> (string \<times> string) list \<Rightarrow> series" where
  "clean_frame to_dt to_numeric df =
     (let parsed = map (\<lambda>row. (parse_date to_dt (fst row), snd row)) df;
          dated = concat (map (\<lambda>row. case fst row of None \<Rightarrow> [] | Some d \<Rightarrow> [(d, snd row)]) parsed);
          sorted_rows = sort_key fst dated;
          priced = map (\<lambda>row. (fst row, to_numeric (snd row))) sorted_rows
      in filter (\<lambda>row. snd row \<noteq> NaN) priced)"

text \<open>\<open>np.log(price / price.shift(1)).dropna()\<close> and \<open>price.pct_change().dropna()\<close>.\<close>

definition log_returns_of :: "series \<Rightarrow> series" where
  "log_returns_of price = dropna (series_map flog (series_map2 fdiv price (shift1 price)))"

definition pct_change :: "series \<Rightarrow> series" where
  "pct_change price = series_map (\<lambda>v. fsub v 1) (series_map2 fdiv price (shift1 price))"

record preprocessed =
  df_processed :: series
  returns :: series
  log_returns :: series

definition preprocess_data ::
  "to_datetime \<Rightarrow> (string \<Rightarrow> fval) \<Rightarrow> (string \<times> string) list \<Rightarrow> preprocessed" where
  "preprocess_data to_dt to_numeric df =
     (let df_clean = clean_frame to_dt to_numeric df
      in \<lparr>df_processed = df_clean,
          returns = dropna (pct_change df_clean),
          log_returns = log_returns_of df_clean\<rparr>)"

text \<open>
  \<open>load_and_preprocess_data\<close> of the Bayesian analyzer cleans the frame by the same
  steps and keeps the frame and the log returns.
\<close>

definition load_and_preprocess_data ::
  "to_datetime \<Rightarrow> (string \<Rightarrow> fval) \<Rightarrow> (string \<times> string) list \<Rightarrow> series \<times> series" where
  "load_and_preprocess_data to_dt to_numeric df =
     (let df_clean = clean_frame to_dt to_numeric df
      in (df_clean, log_returns_of df_clean))"

text \<open>The rows a cleaning keeps, in the order of the input: those whose date parses
  and whose price is not NaN.\<close>

definition kept_rows :: "to_datetime \<Rightarrow> (string \<Rightarrow> fval) \<Rightarrow> (string \<times> string) list \<Rightarrow> series" where
  "kept_rows to_dt to_numeric df =
     concat (map (\<lambda>row. case parse_date to_dt (fst row) of
                           None \<Rightarrow> []
                         | Some d \<Rightarrow> if to_numeric (snd row) = NaN then []
                                     else [(d, to_numeric (snd row))]) df)"

section \<open>time\_series\_analysis.py: stationarity tests\<close>

text \<open>
  \<open>adfuller\<close> and \<open>kpss\<close> of statsmodels are parameters that raise or return the
  statistic, the p-value and the table of critical values. What the method prints is
  kept as a list of lines: a heading, a labelled number, a conclusion or a note.
\<close>

record test_result =
  statistic :: real
  p_value :: real
  critical_values :: "(string \<times> real) list"

datatype printed = Heading string | Value string real | Result string | Note string

definition test_stationarity ::
  "(fval list \<Rightarrow> py_error + test_result) \<Rightarrow> (fval list \<Rightarrow> py_error + test_result)
     \<Rightarrow> series \<Rightarrow> string \<Rightarrow> py_error + printed list" where
  "test_stationarity adfuller kpss series title =
     bind_err (adfuller (map snd (dropna series))) (\<lambda>adf_result.
       let out =
             [Heading (''STATIONARITY TESTS: '' @ title),
              Heading ''Augmented Dickey-Fuller Test:'',
              Value ''ADF Statistic'' (statistic adf_result),
              Value ''p-value'' (p_value adf_result),
              Heading ''Critical values:'']
             @ map (\<lambda>kv. Value (fst kv) (snd kv)) (critical_values adf_result)
             @ [if p_value adf_result \<le> 0.05
                then Result ''Series is STATIONARY (reject null hypothesis)''
                else Result ''Series is NON-STATIONARY (fail to reject null hypothesis)'']
       in case kpss (map snd (dropna series)) of
            Inl e \<Rightarrow> Inr (out @ [Note ''KPSS test could not be performed''])
          | Inr kpss_result \<Rightarrow>
              Inr (out
                   @ [Heading ''KPSS Test:'',
                      Value ''KPSS Statistic'' (statistic kpss_result),
                      Value ''p-value'' (p_value kpss_result),
                      Heading ''Critical values:'']
                   @ map (\<lambda>kv. Value (fst kv) (snd kv)) (critical_values kpss_result)
                   @ [if 0.05 \<le> p_value kpss_result
                      then Result ''Series is STATIONARY (fail to reject null hypothesis)''
                      else Result ''Series is NON-STATIONARY (reject null hypothesis)'']))"

section \<open>time\_series\_analysis.py: change point detection\<close>

text \<open>
  \<open>Pelt(...).fit(values).predict(pen=10)\<close> and \<open>Binseg(...).fit(values).predict(n_bkps=10)\<close>
  of ruptures are parameters, absent when the library cannot be imported; each raises or
  returns its list of break points. The dates looked up for the lines of the plot and of
  the printed list are those of \<open>change_points[:-1]\<close>.
\<close>

type_synonym predictor = "fval list \<Rightarrow> py_error + nat list"

definition marked_dates :: "timestamp list \<Rightarrow> nat list \<Rightarrow> py_error + timestamp list" where
  "marked_dates idx change_points =
     for_each (\<lambda>cp acc. bind_err (getitem idx (int cp)) (\<lambda>d. Inr (acc @ [d])))
       (butlast change_points) []"

record detection =
  shown_pelt :: "timestamp list"
  shown_binseg :: "timestamp list"
  returned :: "nat list \<times> nat list"

text \<open>
  \<open>change_point_analysis\<close>. When \<open>import ruptures\<close> fails, the \<open>except\<close> branch reads
  the local \<open>log_returns\<close>, which is assigned only after the import, and so raises
  \<open>UnboundLocalError\<close>.
\<close>

definition change_point_analysis ::
  "(predictor \<times> predictor) option \<Rightarrow> series \<Rightarrow> py_error + detection" where
  "change_point_analysis ruptures self_log_returns =
     (case ruptures of
        None \<Rightarrow> Inl UnboundLocalError
      | Some (pelt_predict, binseg_predict) \<Rightarrow>
          let log_returns = dropna self_log_returns
          in bind_err (pelt_predict (map snd log_returns)) (\<lambda>change_points_pelt.
             bind_err (binseg_predict (map snd log_returns)) (\<lambda>change_points_binseg.
             bind_err (marked_dates (map fst log_returns) change_points_pelt) (\<lambda>lines_pelt.
             bind_err (marked_dates (map fst log_returns) change_points_binseg) (\<lambda>lines_binseg.
               Inr \<lparr>shown_pelt = lines_pelt,
                    shown_binseg = lines_binseg,
                    returned = (change_points_pelt, change_points_binseg)\<rparr>)))))"

section \<open>Fixtures for the closed examples\<close>

text \<open>
  The concrete inputs of the examples below. The parsers, the interval function and the
  tests and predictors of the libraries are small tables that stand for what the
  libraries return on these inputs: \<open>to_datetime_example\<close> knows three date strings,
  \<open>to_numeric_example\<close> four numbers, \<open>adfuller_example\<close> and \<open>kpss_example\<close> raise
  \<open>ValueError\<close> on a series that is empty or constant, and the two predictors end
  their lists with the length of the series, as ruptures does.
\<close>

definition cp_example :: change_point where
  "cp_example =
     \<lparr>change_point_name = ''cp_0'', mean_index = 60, median_index = 60,
      mean_date = 100 * ns_per_day, median_date = 100 * ns_per_day, std = 0,
      hdi_lower = 60, hdi_upper = 60,
      hdi_lower_date = 100 * ns_per_day, hdi_upper_date = 100 * ns_per_day,
      samples = [60]\<rparr>"

definition event_at :: "int \<Rightarrow> string \<Rightarrow> event" where
  "event_at d descr =
     \<lparr>Date = d * ns_per_day, Event_Category = ''Geopolitical'',
      Event_Description = descr, Impact_Direction = ''Negative'',
      Impact_Magnitude = ''High'', Confidence_Level = ''High''\<rparr>"

definition catalog_example :: "event list" where
  "catalog_example =
     [event_at 131 ''one day past the window, after'',
      event_at 130 ''thirty days after'',
      event_at 69 ''one day past the window, before'',
      event_at 70 ''thirty days before'',
      event_at 100 ''same day'']"

definition y_example :: "real list" where
  "y_example = [1 / 100, - 1 / 50, 1 / 200]"

definition y_long_example :: "real list" where
  "y_long_example = replicate 200 (1 / 100)"

definition hdi_minmax :: "real list \<Rightarrow> real \<times> real" where
  "hdi_minmax xs = (Min (set xs), Max (set xs))"

definition trace_example :: trace where
  "trace_example =
     [(''cp_0'', [60, 61]), (''cp_1'', [130, 130]),
      (''mu_0'', [1 / 100, 3 / 100]), (''sigma_0'', [1 / 50, 1 / 25]),
      (''mu_1'', [1 / 100]), (''sigma_1'', [1 / 2]),
      (''mu_2'', [- (1 / 100)]), (''sigma_2'', [1 / 4])]"

definition idx_example :: "timestamp list" where
  "idx_example = map (\<lambda>d. int d * ns_per_day) [0 ..< 200]"

definition cps_example :: "change_point list" where
  "cps_example =
     [\<lparr>change_point_name = ''cp_0'', mean_index = 60, median_index = 60,
       mean_date = 60 * ns_per_day, median_date = 60 * ns_per_day,
       std = np_std [60, 61], hdi_lower = 60, hdi_upper = 61,
       hdi_lower_date = 60 * ns_per_day,
       hdi_upper_date = 61 * ns_per_day, samples = [60, 61]\<rparr>,
      \<lparr>change_point_name = ''cp_1'', mean_index = 130, median_index = 130,
       mean_date = 130 * ns_per_day, median_date = 130 * ns_per_day,
       std = np_std [130, 130], hdi_lower = 130, hdi_upper = 130,
       hdi_lower_date = 130 * ns_per_day,
       hdi_upper_date = 130 * ns_per_day, samples = [130, 130]\<rparr>]"

definition regs_example :: "regime list" where
  "regs_example =
     [\<lparr>regime = 0, start_date = 0, end_date = 60 * ns_per_day,
       duration_days = 60, mu_mean = 1 / 50, mu_std = np_std [1 / 100, 3 / 100],
       sigma_mean = 3 / 100, sigma_std = np_std [1 / 50, 1 / 25],
       annualized_volatility = 3 * sqrt 252\<rparr>,
      \<lparr>regime = 1, start_date = 60 * ns_per_day, end_date = 130 * ns_per_day,
       duration_days = 70, mu_mean = 1 / 100, mu_std = np_std [1 / 100],
       sigma_mean = 1 / 2, sigma_std = np_std [1 / 2],
       annualized_volatility = 50 * sqrt 252\<rparr>,
      \<lparr>regime = 2, start_date = 130 * ns_per_day, end_date = 199 * ns_per_day,
       duration_days = 69, mu_mean = - (1 / 100), mu_std = np_std [- (1 / 100)],
       sigma_mean = 1 / 4, sigma_std = np_std [1 / 4],
       annualized_volatility = 25 * sqrt 252\<rparr>]"

definition to_datetime_example :: to_datetime where
  "to_datetime_example fmt s =
     (if fmt = Some ''%Y-%m-%d'' \<and> s = ''2020-01-01'' then Inr (Some (18262 * ns_per_day))
      else if fmt = Some ''%Y-%m-%d'' \<and> s = ''2020-01-02'' then Inr (Some (18263 * ns_per_day))
      else if fmt = Some ''%d-%b-%y'' \<and> s = ''03-Jan-20'' then Inr (Some (18264 * ns_per_day))
      else Inl ValueError)"

definition to_numeric_example :: "string \<Rightarrow> fval" where
  "to_numeric_example s =
     (if s = ''10'' then Finite 10 else if s = ''11'' then Finite 11
      else if s = ''12.5'' then Finite 12.5 else if s = ''inf'' then PosInf else NaN)"

definition raw_example :: "(string \<times> string) list" where
  "raw_example =
     [(''2020-01-02'', ''11''), (''not a date'', ''10''), (''2020-01-01'', ''10''),
      (''03-Jan-20'', ''n/a''), (''2020-01-02'', ''12.5''), (''03-Jan-20'', ''inf'')]"


definition adfuller_example :: "fval list \<Rightarrow> py_error + test_result" where
  "adfuller_example x =
     (if length (remdups x) \<le> 1 then Inl ValueError
      else Inr \<lparr>statistic = - 3, p_value = 3 / 100,
                critical_values = [(''1%'', - 343 / 100), (''5%'', - 286 / 100), (''10%'', - 257 / 100)]\<rparr>)"

definition kpss_example :: "fval list \<Rightarrow> py_error + test_result" where
  "kpss_example x =
     (if length (remdups x) \<le> 1 then Inl ValueError
      else Inr \<lparr>statistic = 1 / 10, p_value = 1 / 10,
                critical_values = [(''10%'', 347 / 1000), (''5%'', 463 / 1000)]\<rparr>)"

definition constant_series :: series where
  "constant_series = map (\<lambda>d. (d * ns_per_day, Finite 5)) [0, 1, 2, 3, 4, 5, 6, 7]"

definition pelt_example :: predictor where
  "pelt_example x = Inr [200, length x]"

definition binseg_example :: predictor where
  "binseg_example x = Inr [35, 70, 105, 140, 200, 235, 270, 305, 340, 370, length x]"

definition returns_example :: series where
  "returns_example =
     map (\<lambda>d. (int d * ns_per_day, Finite (if d < 200 then 1 / 100 else - (1 / 100)))) [0 ..< 400]"

definition raw_prices_example :: "(string \<times> string) list" where
  "raw_prices_example =
     [(''2020-01-02'', ''11''), (''2020-01-01'', ''10''), (''03-Jan-20'', ''12.5'')]"

definition price_example :: series where
  "price_example =
     [(18262 * ns_per_day, Finite 10), (18263 * ns_per_day, Finite 11),
      (18264 * ns_per_day, Finite (25 / 2))]"

section \<open>Event association: properties\<close>

lemma collect_events_filter:
  "collect_events d w evs =
     map (entry_of d) (filter (\<lambda>ev. \<bar>days (d - Date ev)\<bar> \<le> w) evs)"
  by (induction evs) (simp_all add: entry_of_def Let_def)

lemma days_whole: "days (k * ns_per_day) = k"
  by (simp add: days_def ns_per_day_def)

text \<open>
  C4, as the method behaves: when the catalog is present but has no rows, the method
  returns one association per change point, in order, each with an empty list of events;
  when the catalog is absent (\<open>events_df is None\<close>) it returns \<open>None\<close>.
\<close>

theorem associate_with_events_empty_or_absent:
  "associate_with_events (Some cps) (Some []) w =
     Some (map (\<lambda>cp. \<lparr>change_point_date = mean_date cp,
                      change_point_index = mean_index cp,
                      associated_events = []\<rparr>) cps)
   \<and> associate_with_events (Some cps) None w = None"
  by (simp add: associate_with_events_def associate_one_def)

text \<open>
  C4 as stated fails: for the one-element list of change points and an absent catalog
  (\<open>events_df is None\<close>) the method returns \<open>None\<close>, not a list of associations.
\<close>

theorem associate_with_events_absent_catalog_counterexample:
  "associate_with_events (Some [cp_example]) None 30 = None"
  by (simp add: associate_with_events_def)

text \<open>
  C5: for a non-negative window, the method returns one association per change point;
  in the association of a change point, a catalog event dated exactly \<open>window_days\<close> days
  before the change point's date and one dated exactly \<open>window_days\<close> days after are
  present, an event \<open>window_days + 1\<close> days away on either side is absent, the days
  distances of the list are ascending, and the events at any one distance appear in the
  order of the catalog.
\<close>

theorem associate_with_events_window:
  assumes "0 \<le> w" and "i < length cps"
  shows "\<exists>assocs. associate_with_events (Some cps) (Some evs) w = Some assocs
           \<and> length assocs = length cps
           \<and> (\<forall>ev \<in> set evs.
                 (Date ev = mean_date (cps ! i) - w * ns_per_day
                    \<longrightarrow> entry_of (mean_date (cps ! i)) ev \<in> set (associated_events (assocs ! i)))
               \<and> (Date ev = mean_date (cps ! i) + w * ns_per_day
                    \<longrightarrow> entry_of (mean_date (cps ! i)) ev \<in> set (associated_events (assocs ! i)))
               \<and> (Date ev = mean_date (cps ! i) - (w + 1) * ns_per_day
                    \<longrightarrow> entry_of (mean_date (cps ! i)) ev \<notin> set (associated_events (assocs ! i)))
               \<and> (Date ev = mean_date (cps ! i) + (w + 1) * ns_per_day
                    \<longrightarrow> entry_of (mean_date (cps ! i)) ev \<notin> set (associated_events (assocs ! i))))
           \<and> sorted (map days_from_cp (associated_events (assocs ! i)))
           \<and> (\<forall>k. filter (\<lambda>a. days_from_cp a = k) (associated_events (assocs ! i))
                    = filter (\<lambda>a. days_from_cp a = k)
                        (map (entry_of (mean_date (cps ! i)))
                           (filter (\<lambda>ev. \<bar>days (mean_date (cps ! i) - Date ev)\<bar> \<le> w) evs)))"
proof -
  define d where "d = mean_date (cps ! i)"
  define kept where "kept = filter (\<lambda>ev. \<bar>days (d - Date ev)\<bar> \<le> w) evs"
  define res where "res = sort_key days_from_cp (map (entry_of d) kept)"
  have assoc: "associated_events (map (associate_one evs w) cps ! i) = res"
    using assms(2)
    by (simp add: associate_one_def collect_events_filter res_def kept_def d_def Let_def)
  have in_res: "entry_of d ev \<in> set res" if "ev \<in> set evs" "\<bar>days (d - Date ev)\<bar> \<le> w" for ev
    using that by (simp add: res_def kept_def)
  have out_res: "entry_of d ev \<notin> set res" if "\<bar>days (d - Date ev)\<bar> > w" for ev
  proof
    assume "entry_of d ev \<in> set res"
    then obtain ev' where "ev' \<in> set kept" "entry_of d ev = entry_of d ev'"
      by (auto simp: res_def)
    then have "\<bar>days (d - Date ev')\<bar> \<le> w" "days_from_cp (entry_of d ev) = days_from_cp (entry_of d ev')"
      by (simp_all add: kept_def)
    then show False using that by (simp add: entry_of_def)
  qed
  have before: "\<bar>days (d - (d - w * ns_per_day))\<bar> \<le> w"
    using assms(1) by (simp add: days_whole)
  have after: "\<bar>days (d - (d + w * ns_per_day))\<bar> \<le> w"
  proof -
    have "d - (d + w * ns_per_day) = (- w) * ns_per_day" by simp
    then have "days (d - (d + w * ns_per_day)) = - w" by (simp only: days_whole)
    then show ?thesis using assms(1) by simp
  qed
  have beyond_before: "\<bar>days (d - (d - (w + 1) * ns_per_day))\<bar> > w"
  proof -
    have "d - (d - (w + 1) * ns_per_day) = (w + 1) * ns_per_day" by simp
    then have "days (d - (d - (w + 1) * ns_per_day)) = w + 1" by (simp only: days_whole)
    then show ?thesis using assms(1) by simp
  qed
  have beyond_after: "\<bar>days (d - (d + (w + 1) * ns_per_day))\<bar> > w"
  proof -
    have "d - (d + (w + 1) * ns_per_day) = (- (w + 1)) * ns_per_day" by (simp add: algebra_simps)
    then have "days (d - (d + (w + 1) * ns_per_day)) = - (w + 1)" by (simp only: days_whole)
    then show ?thesis using assms(1) by simp
  qed
  have srt: "sorted (map days_from_cp res)"
    by (simp add: res_def)
  have stable: "filter (\<lambda>a. days_from_cp a = k) res
                  = filter (\<lambda>a. days_from_cp a = k) (map (entry_of d) kept)" for k
    unfolding res_def by (rule sort_key_stable)
  show ?thesis
    unfolding associate_with_events_def option.case
    apply (rule exI [of _ "map (associate_one evs w) cps"])
    apply (simp only: assoc length_map)
    using in_res out_res before after beyond_before beyond_after srt stable
    unfolding d_def kept_def
    by (auto simp only:)
qed

theorem associate_with_events_window_witness:
  "(0::int) \<le> 30 \<and> 0 < length [cp_example]
   \<and> (\<exists>assocs. associate_with_events (Some [cp_example]) (Some catalog_example) 30 = Some assocs
         \<and> length assocs = 1
         \<and> entry_of (mean_date cp_example) (event_at 70 ''thirty days before'')
              \<in> set (associated_events (assocs ! 0))
         \<and> entry_of (mean_date cp_example) (event_at 130 ''thirty days after'')
              \<in> set (associated_events (assocs ! 0))
         \<and> entry_of (mean_date cp_example) (event_at 69 ''one day past the window, before'')
              \<notin> set (associated_events (assocs ! 0))
         \<and> entry_of (mean_date cp_example) (event_at 131 ''one day past the window, after'')
              \<notin> set (associated_events (assocs ! 0))
         \<and> sorted (map days_from_cp (associated_events (assocs ! 0))))"
proof -
  have h1: "(0::int) \<le> 30" by simp
  have h2: "0 < length [cp_example]" by simp
  have m: "event_at 70 ''thirty days before'' \<in> set catalog_example"
     "event_at 130 ''thirty days after'' \<in> set catalog_example"
     "event_at 69 ''one day past the window, before'' \<in> set catalog_example"
     "event_at 131 ''one day past the window, after'' \<in> set catalog_example"
    by (simp_all add: catalog_example_def)
  have d: "Date (event_at 70 ''thirty days before'') = mean_date ([cp_example] ! 0) - 30 * ns_per_day"
      "Date (event_at 130 ''thirty days after'') = mean_date ([cp_example] ! 0) + 30 * ns_per_day"
      "Date (event_at 69 ''one day past the window, before'') = mean_date ([cp_example] ! 0) - (30 + 1) * ns_per_day"
      "Date (event_at 131 ''one day past the window, after'') = mean_date ([cp_example] ! 0) + (30 + 1) * ns_per_day"
    by (simp_all add: event_at_def cp_example_def)
  from associate_with_events_window [OF h1 h2, of catalog_example]
  obtain assocs where a: "associate_with_events (Some [cp_example]) (Some catalog_example) 30 = Some assocs"
    "length assocs = length [cp_example]"
    "\<forall>ev \<in> set catalog_example.
                 (Date ev = mean_date ([cp_example] ! 0) - 30 * ns_per_day
                    \<longrightarrow> entry_of (mean_date ([cp_example] ! 0)) ev \<in> set (associated_events (assocs ! 0)))
               \<and> (Date ev = mean_date ([cp_example] ! 0) + 30 * ns_per_day
                    \<longrightarrow> entry_of (mean_date ([cp_example] ! 0)) ev \<in> set (associated_events (assocs ! 0)))
               \<and> (Date ev = mean_date ([cp_example] ! 0) - (30 + 1) * ns_per_day
                    \<longrightarrow> entry_of (mean_date ([cp_example] ! 0)) ev \<notin> set (associated_events (assocs ! 0)))
               \<and> (Date ev = mean_date ([cp_example] ! 0) + (30 + 1) * ns_per_day
                    \<longrightarrow> entry_of (mean_date ([cp_example] ! 0)) ev \<notin> set (associated_events (assocs ! 0)))"
    "sorted (map days_from_cp (associated_events (assocs ! 0)))"
    by blast
  from a(3) m d have
    "entry_of (mean_date ([cp_example] ! 0)) (event_at 70 ''thirty days before'') \<in> set (associated_events (assocs ! 0))"
    "entry_of (mean_date ([cp_example] ! 0)) (event_at 130 ''thirty days after'') \<in> set (associated_events (assocs ! 0))"
    "entry_of (mean_date ([cp_example] ! 0)) (event_at 69 ''one day past the window, before'') \<notin> set (associated_events (assocs ! 0))"
    "entry_of (mean_date ([cp_example] ! 0)) (event_at 131 ''one day past the window, after'') \<notin> set (associated_events (assocs ! 0))"
    by blast+
  with a(1,2,4) h1 show ?thesis by simp
qed

section \<open>The model: properties\<close>

lemma str_nat_0: "str_nat 0 = ''0''"
  by (simp add: str_nat.simps digit_char_def)

lemma fold_cp_step:
  "fold (cp_step n) [0 ..< k] ([], []) = (map (cp_rv n) [0 ..< k], map (cp_rv n) [0 ..< k])"
proof (induction k)
  case 0
  show ?case by simp
next
  case (Suc k)
  let ?xs = "map (cp_rv n) [0 ..< k]"
  have prev: "rv_name (?xs ! (k - 1)) = ''cp_'' @ str_nat (k - 1)" if "k \<noteq> 0"
    using that by (simp add: cp_rv_def free_rv_def)
  have step: "cp_step n k (?xs, ?xs) = (?xs @ [cp_rv n k], ?xs @ [cp_rv n k])"
  proof (cases "k = 0")
    case True
    then show ?thesis by (simp add: cp_step_def cp_rv_def Let_def)
  next
    case False
    then show ?thesis
      unfolding cp_step_def Let_def snd_conv fst_conv prev [OF False]
      by (simp add: cp_rv_def)
  qed
  have "fold (cp_step n) [0 ..< Suc k] ([], []) = cp_step n k (?xs, ?xs)"
    by (simp add: Suc)
  then show ?case by (simp add: step)
qed

lemma fold_prior_step:
  "fold prior_step [0 ..< k] (m, [], []) =
     (m @ concat (map (\<lambda>i. [mu_rv i, sigma_rv i]) [0 ..< k]),
      map mu_rv [0 ..< k], map sigma_rv [0 ..< k])"
  by (induction k) (simp_all add: prior_step_def mu_rv_def sigma_rv_def Let_def)

lemma getitem_0: "getitem (map f [0 ..< Suc k]) 0 = Inr (f 0)"
  by (simp add: getitem_def Let_def upt_conv_Cons del: upt_Suc)

lemma build_model_closed:
  assumes "0 \<le> K"
  shows "build_bayesian_change_point_model True y K =
           Inr (map (cp_rv (length y)) [0 ..< nat K]
                @ concat (map (\<lambda>i. [mu_rv i, sigma_rv i]) [0 ..< Suc (nat K)])
                @ [likelihood_rv y])"
proof -
  have k1: "nat (K + 1) = Suc (nat K)" using assms by simp
  show ?thesis
    unfolding build_bayesian_change_point_model_def Let_def fold_cp_step k1 fst_conv snd_conv
      fold_prior_step getitem_0 bind_err_def
    by (simp add: likelihood_rv_def mu_rv_def sigma_rv_def free_rv_def str_nat_0)
qed

lemma build_model_negative:
  "K < 0 \<Longrightarrow> build_bayesian_change_point_model True y K = Inl IndexError"
  by (simp add: build_bayesian_change_point_model_def Let_def getitem_def bind_err_def)

lemma observed_rvs_closed:
  "observed_rvs (map (cp_rv n) [0 ..< k]
                @ concat (map (\<lambda>i. [mu_rv i, sigma_rv i]) [0 ..< k'])
                @ [likelihood_rv y]) = [likelihood_rv y]"
proof -
  have a: "filter (\<lambda>rv. observed rv \<noteq> None) (map (cp_rv n) xs) = []" for xs
    by (induction xs) (simp_all add: cp_rv_def free_rv_def)
  have b: "filter (\<lambda>rv. observed rv \<noteq> None) (concat (map (\<lambda>i. [mu_rv i, sigma_rv i]) xs)) = []" for xs
    by (induction xs) (simp_all add: mu_rv_def sigma_rv_def free_rv_def)
  show ?thesis
    unfolding observed_rvs_def filter_append a b by (simp add: likelihood_rv_def)
qed

lemma free_rvs_closed:
  "free_rvs (map (cp_rv n) [0 ..< k]
                @ concat (map (\<lambda>i. [mu_rv i, sigma_rv i]) [0 ..< k'])
                @ [likelihood_rv y]) =
     map (cp_rv n) [0 ..< k] @ concat (map (\<lambda>i. [mu_rv i, sigma_rv i]) [0 ..< k'])"
proof -
  have a: "filter (\<lambda>rv. observed rv = None) (map (cp_rv n) xs) = map (cp_rv n) xs" for xs
    by (induction xs) (simp_all add: cp_rv_def free_rv_def)
  have b: "filter (\<lambda>rv. observed rv = None) (concat (map (\<lambda>i. [mu_rv i, sigma_rv i]) xs))
             = concat (map (\<lambda>i. [mu_rv i, sigma_rv i]) xs)" for xs
    by (induction xs) (simp_all add: mu_rv_def sigma_rv_def free_rv_def)
  show ?thesis
    unfolding free_rvs_def filter_append a b by (simp add: likelihood_rv_def)
qed

text \<open>
  C1, as the model is built: for every number \<open>K \<ge> 0\<close> of change points the model has
  one observed variable, the likelihood, a Normal distribution over the whole series
  \<open>y\<close> whose mean and standard deviation are \<open>mu_0\<close> and \<open>sigma_0\<close>; these two are the
  only variables the observations depend on; and each regime \<open>i \<le> K\<close> has its own
  \<open>mu_i\<close> and \<open>sigma_i\<close> among the unobserved variables.
\<close>

theorem likelihood_single_regime:
  assumes "0 \<le> K"
  shows "\<exists>m. build_bayesian_change_point_model True y K = Inr m
           \<and> observed_rvs m =
               [\<lparr>rv_name = ''likelihood'',
                 rv_dist = Normal (Var ''mu_0'') (Var ''sigma_0''),
                 observed = Some y\<rparr>]
           \<and> likelihood_vars m = [''mu_0'', ''sigma_0'']
           \<and> (\<forall>i \<le> nat K. mu_rv i \<in> set (free_rvs m) \<and> sigma_rv i \<in> set (free_rvs m))"
proof -
  let ?m = "map (cp_rv (length y)) [0 ..< nat K]
                @ concat (map (\<lambda>i. [mu_rv i, sigma_rv i]) [0 ..< Suc (nat K)])
                @ [likelihood_rv y]"
  have "build_bayesian_change_point_model True y K = Inr ?m"
    by (rule build_model_closed [OF assms])
  moreover have o: "observed_rvs ?m = [likelihood_rv y]"
    by (rule observed_rvs_closed)
  moreover have "likelihood_vars ?m = [''mu_0'', ''sigma_0'']"
    unfolding likelihood_vars_def o by (simp add: likelihood_rv_def)
  moreover have "\<forall>i \<le> nat K. mu_rv i \<in> set (free_rvs ?m) \<and> sigma_rv i \<in> set (free_rvs ?m)"
    unfolding free_rvs_closed by (auto simp del: upt_Suc)
  ultimately show ?thesis
    unfolding likelihood_rv_def by blast
qed

text \<open>
  C1 as stated fails: with one change point there are two regimes, and the observations
  depend on \<open>mu_0\<close> and \<open>sigma_0\<close> alone, not on \<open>mu_1\<close> and \<open>sigma_1\<close>.
\<close>

theorem likelihood_per_regime_counterexample:
  "map_sum id likelihood_vars (build_bayesian_change_point_model True y_example 1)
     = Inr [''mu_0'', ''sigma_0'']"
proof -
  let ?m = "map (cp_rv (length y_example)) [0 ..< nat 1]
              @ concat (map (\<lambda>i. [mu_rv i, sigma_rv i]) [0 ..< Suc (nat 1)])
              @ [likelihood_rv y_example]"
  have b: "build_bayesian_change_point_model True y_example 1 = Inr ?m"
    by (rule build_model_closed) simp
  have "likelihood_vars ?m = [''mu_0'', ''sigma_0'']"
    unfolding likelihood_vars_def observed_rvs_closed by (simp add: likelihood_rv_def)
  with b show ?thesis by simp
qed

theorem likelihood_single_regime_witness:
  "(0::int) \<le> 1 \<and> (\<exists>m. build_bayesian_change_point_model True y_example 1 = Inr m
      \<and> likelihood_vars m = [''mu_0'', ''sigma_0'']
      \<and> mu_rv 1 \<in> set (free_rvs m) \<and> sigma_rv 1 \<in> set (free_rvs m))"
  using likelihood_single_regime [of 1 y_example] by auto

text \<open>
  C3, as the method behaves: without the sampling library it raises \<open>ImportError\<close>;
  with it, for every series \<open>y\<close>, however short, and every \<open>K \<ge> 0\<close> it returns a model,
  of \<open>K\<close> change points, \<open>2 (K + 1)\<close> regime parameters and the likelihood.
\<close>

theorem build_model_no_length_check:
  "build_bayesian_change_point_model False y K = Inl ImportError
   \<and> (0 \<le> K \<longrightarrow> (\<exists>m. build_bayesian_change_point_model True y K = Inr m
                      \<and> length m = nat K + 2 * (nat K + 1) + 1))"
proof -
  have "length (concat (map (\<lambda>i. [mu_rv i, sigma_rv i]) xs)) = 2 * length xs" for xs :: "nat list"
    by (induction xs) simp_all
  then show ?thesis
    by (simp add: build_model_closed del: upt_Suc)
      (simp add: build_bayesian_change_point_model_def)
qed

theorem build_model_no_length_check_witness:
  "(0::int) \<le> 3 \<and> (\<exists>m. build_bayesian_change_point_model True y_example 3 = Inr m \<and> length m = 12)"
  using build_model_no_length_check [of y_example 3] by simp

text \<open>
  C3 as stated fails: a series of three returns is shorter than \<open>2 * 50 * (K + 1)\<close> for
  \<open>K = 3\<close> and for \<open>K = 0\<close>, and for both the method returns a model, not an error.
\<close>

theorem build_model_short_series_counterexample:
  "int (length y_example) < 2 * 50 * (3 + 1)
   \<and> \<not> isl (build_bayesian_change_point_model True y_example 3)
   \<and> int (length y_example) < 2 * 50 * (0 + 1)
   \<and> \<not> isl (build_bayesian_change_point_model True y_example 0)"
  by (simp add: build_model_closed y_example_def)

section \<open>Regimes: properties\<close>

lemma for_each_invariant:
  assumes "\<And>x s s'. x \<in> set xs \<Longrightarrow> P s \<Longrightarrow> body x s = Inr s' \<Longrightarrow> P s'"
    and "P s" and "for_each body xs s = Inr s'"
  shows "P s'"
  using assms
proof (induction xs arbitrary: s)
  case Nil
  then show ?case by simp
next
  case (Cons x xs)
  from Cons.prems(3) obtain s1 where s1: "body x s = Inr s1" "for_each body xs s1 = Inr s'"
    by (auto simp: bind_err_def split: sum.splits)
  have "P s1" using Cons.prems(1) [of x s s1] Cons.prems(2) s1(1) by simp
  moreover have "\<And>y t t'. y \<in> set xs \<Longrightarrow> P t \<Longrightarrow> body y t = Inr t' \<Longrightarrow> P t'"
    using Cons.prems(1) by (meson list.set_intros(2))
  ultimately show ?case
    using Cons.IH [of s1] s1(2) by blast
qed

lemma regime_step_annualized:
  assumes "regime_step idx cps mus sigmas i acc = Inr acc'"
    and "\<forall>r \<in> set acc. annualized_volatility r = sigma_mean r * sqrt 252 * 100"
  shows "\<forall>r \<in> set acc'. annualized_volatility r = sigma_mean r * sqrt 252 * 100"
  using assms
  by (auto simp: regime_step_def bind_err_def Let_def split: option.splits sum.splits)

lemma quantify_annualized:
  assumes "quantify_regime_impacts idx trace cps = Inr regs" and "r \<in> set regs"
  shows "annualized_volatility r = sigma_mean r * sqrt 252 * 100"
proof -
  from assms(1) obtain c p where
    run: "for_each (regime_step idx c
            (filter (\<lambda>item. startswith (fst item) ''mu_'') p)
            (filter (\<lambda>item. \<not> startswith (fst item) ''mu_'' \<and> startswith (fst item) ''sigma_'') p))
          [0 ..< length (filter (\<lambda>item. startswith (fst item) ''mu_'') p)] [] = Inr regs"
    by (auto simp: quantify_regime_impacts_def Let_def split: option.splits)
  have "\<forall>r \<in> set regs. annualized_volatility r = sigma_mean r * sqrt 252 * 100"
    by (rule for_each_invariant [OF _ _ run,
          where P = "\<lambda>acc. \<forall>r \<in> set acc. annualized_volatility r = sigma_mean r * sqrt 252 * 100"])
       (auto dest: regime_step_annualized)
  then show ?thesis using assms(2) by blast
qed

lemma upt3: "[0 ..< 3] = [0, 1, 2]" "[0..<2] = [0,1]" "[0..<1] = [0]"
  by (simp_all add: upt_rec)


lemma identify_example:
  "identify_change_points hdi_minmax idx_example (Some trace_example) = Inr cps_example"
  by (simp add: identify_change_points_def trace_example_def idx_example_def startswith_def
      analyse_change_point_def bind_err_def getitem_def Let_def np_mean_def np_median_def
      py_int_def hdi_minmax_def cps_example_def ns_per_day_def)


lemma quantify_example:
  "quantify_regime_impacts idx_example (Some trace_example) (Some cps_example) = Inr regs_example"
  by (simp add: quantify_regime_impacts_def trace_example_def idx_example_def startswith_def
      regime_step_def regime_dates_def bind_err_def getitem_def Let_def upt3 str_nat.simps
      digit_char_def cps_example_def days_def np_mean_def regs_example_def ns_per_day_def)

text \<open>
  C6: every regime that \<open>quantify_regime_impacts\<close> reports has an annualized volatility
  equal to its standard deviation \<open>sigma_mean\<close> times \<open>sqrt(252)\<close> times 100, so that of
  two reported regimes the one with the strictly larger standard deviation has the
  strictly larger annualized volatility (and conversely).
\<close>

theorem annualized_volatility_monotone:
  assumes "quantify_regime_impacts idx1 trace1 cps1 = Inr regs1" and "r1 \<in> set regs1"
    and "quantify_regime_impacts idx2 trace2 cps2 = Inr regs2" and "r2 \<in> set regs2"
  shows "annualized_volatility r1 = sigma_mean r1 * sqrt 252 * 100
         \<and> (sigma_mean r1 < sigma_mean r2 \<longleftrightarrow> annualized_volatility r1 < annualized_volatility r2)"
proof -
  have a1: "annualized_volatility r1 = sigma_mean r1 * sqrt 252 * 100"
    by (rule quantify_annualized [OF assms(1,2)])
  have a2: "annualized_volatility r2 = sigma_mean r2 * sqrt 252 * 100"
    by (rule quantify_annualized [OF assms(3,4)])
  have pos: "0 < sqrt 252 * (100::real)" by simp
  have "sigma_mean r1 < sigma_mean r2 \<longleftrightarrow>
          sigma_mean r1 * (sqrt 252 * 100) < sigma_mean r2 * (sqrt 252 * 100)"
    using pos by (simp only: mult_less_cancel_right_pos)
  then show ?thesis using a1 a2 by (simp add: mult.assoc)
qed

theorem annualized_volatility_monotone_witness:
  "quantify_regime_impacts idx_example (Some trace_example) (Some cps_example) = Inr regs_example
   \<and> regs_example ! 0 \<in> set regs_example \<and> regs_example ! 1 \<in> set regs_example
   \<and> sigma_mean (regs_example ! 0) < sigma_mean (regs_example ! 1)
   \<and> annualized_volatility (regs_example ! 0) = sigma_mean (regs_example ! 0) * sqrt 252 * 100
   \<and> annualized_volatility (regs_example ! 0) < annualized_volatility (regs_example ! 1)"
proof -
  have m: "regs_example ! 0 \<in> set regs_example" "regs_example ! 1 \<in> set regs_example"
    by (simp_all add: regs_example_def)
  have lt: "sigma_mean (regs_example ! 0) < sigma_mean (regs_example ! 1)"
    by (simp add: regs_example_def)
  from annualized_volatility_monotone [OF quantify_example m(1) quantify_example m(2)] lt
  have "annualized_volatility (regs_example ! 0) = sigma_mean (regs_example ! 0) * sqrt 252 * 100"
    "annualized_volatility (regs_example ! 0) < annualized_volatility (regs_example ! 1)"
    by blast+
  with quantify_example m lt show ?thesis by blast
qed

section \<open>Names of the sampled variables and the partition into regimes\<close>

lemma digit_char_inj:
  assumes "a < 10" and "b < 10" and "digit_char a = digit_char b"
  shows "a = b"
proof -
  have "distinct ''0123456789''" by simp
  moreover have "a < length ''0123456789''" "b < length ''0123456789''"
    using assms(1,2) by simp_all
  ultimately show ?thesis
    using assms(3) unfolding digit_char_def by (simp only: nth_eq_iff_index_eq)
qed

lemma str_nat_nonempty: "str_nat n \<noteq> []"
  by (subst str_nat.simps) simp

lemma str_nat_inj: "str_nat a = str_nat b \<Longrightarrow> a = b"
proof (induction a arbitrary: b rule: str_nat.induct)
  case (1 n)
  show ?case
  proof (cases "n < 10")
    case small_n: True
    show ?thesis
    proof (cases "b < 10")
      case True
      with small_n "1.prems" show ?thesis
        by (simp add: str_nat.simps [of n] str_nat.simps [of b] digit_char_inj)
    next
      case False
      with small_n "1.prems" have "[digit_char n] = str_nat (b div 10) @ [digit_char (b mod 10)]"
        by (simp add: str_nat.simps [of n] str_nat.simps [of b])
      then show ?thesis using str_nat_nonempty [of "b div 10"] by simp
    qed
  next
    case big_n: False
    show ?thesis
    proof (cases "b < 10")
      case True
      with big_n "1.prems" have "str_nat (n div 10) @ [digit_char (n mod 10)] = [digit_char b]"
        by (simp add: str_nat.simps [of n] str_nat.simps [of b])
      then show ?thesis using str_nat_nonempty [of "n div 10"] by simp
    next
      case False
      with big_n "1.prems" have
        eq: "str_nat (n div 10) = str_nat (b div 10)" "digit_char (n mod 10) = digit_char (b mod 10)"
        by (simp_all add: str_nat.simps [of n] str_nat.simps [of b])
      have "n div 10 = b div 10" using "1.IH" [OF big_n eq(1)] .
      moreover have "n mod 10 = b mod 10"
        by (rule digit_char_inj [OF _ _ eq(2)]) simp_all
      ultimately show ?thesis by (metis div_mult_mod_eq)
    qed
  qed
qed

text \<open>Counting and looking up the entries of a dataset by name.\<close>

lemma length_filter_names:
  assumes "distinct (map fst tr)"
  shows "length (filter (\<lambda>item. P (fst item)) tr) = card {n \<in> set (map fst tr). P n}"
proof -
  have "length (filter (\<lambda>item. P (fst item)) tr) = length (filter P (map fst tr))"
    by (simp add: filter_map comp_def)
  also have "\<dots> = card (set (filter P (map fst tr)))"
  proof -
    have "distinct (filter P (map fst tr))" using assms by (rule distinct_filter)
    then show ?thesis by (rule distinct_card [symmetric])
  qed
  also have "set (filter P (map fst tr)) = {n \<in> set (map fst tr). P n}"
    by auto
  finally show ?thesis .
qed

lemma map_of_filter_present:
  assumes "n \<in> set (map fst tr)" and "P n"
  shows "\<exists>v. map_of (filter (\<lambda>item. P (fst item)) tr) n = Some v"
proof -
  from assms obtain v where "(n, v) \<in> set (filter (\<lambda>item. P (fst item)) tr)"
    by auto
  then have "n \<in> fst ` set (filter (\<lambda>item. P (fst item)) tr)"
    by force
  then show ?thesis
    by (metis map_of_eq_None_iff not_Some_eq)
qed


lemma bind_err_simps [simp]:
  "bind_err (Inl e) f = Inl e" "bind_err (Inr v) f = f v"
  by (simp_all add: bind_err_def)

lemma getitem_nat: "i < length xs \<Longrightarrow> getitem xs (int i) = Inr (xs ! i)"
  by (simp add: getitem_def)

lemma getitem_last: "xs \<noteq> [] \<Longrightarrow> getitem xs (- 1) = Inr (last xs)"
proof -
  assume ne: "xs \<noteq> []"
  then have "nat (int (length xs) + - 1) = length xs - 1" by simp
  moreover from ne have "0 < length xs" by simp
  ultimately show ?thesis
    by (simp add: getitem_def last_conv_nth [OF ne] Suc_leI)
qed

lemma getitem_in_set: "getitem xs i = Inr v \<Longrightarrow> v \<in> set xs"
  by (auto simp: getitem_def split: if_splits)

lemma for_each_append:
  "for_each body (xs @ ys) s = bind_err (for_each body xs s) (for_each body ys)"
  by (induction xs arbitrary: s) (simp_all add: bind_err_def split: sum.splits)

lemma for_each_upt:
  assumes step: "\<And>j s. j < n \<Longrightarrow> I j s \<Longrightarrow> \<exists>s'. body j s = Inr s' \<and> I (Suc j) s'"
    and init: "I 0 s0"
  shows "\<exists>s'. for_each body [0 ..< n] s0 = Inr s' \<and> I n s'"
  using step
proof (induction n)
  case 0
  show ?case using init by simp
next
  case (Suc n)
  have "\<And>j s. j < n \<Longrightarrow> I j s \<Longrightarrow> \<exists>s'. body j s = Inr s' \<and> I (Suc j) s'"
    using Suc.prems by (meson less_Suc_eq)
  then obtain s1 where s1: "for_each body [0 ..< n] s0 = Inr s1" "I n s1"
    using Suc.IH by blast
  obtain s2 where s2: "body n s1 = Inr s2" "I (Suc n) s2"
    using Suc.prems [of n s1] s1(2) by blast
  show ?case
    using s1 s2 by (simp add: for_each_append)
qed

text \<open>Change points: what a successful run of \<open>identify_change_points\<close> returns.\<close>

lemma analyse_change_point_appends:
  assumes "analyse_change_point hdi idx item acc = Inr acc'"
  shows "\<exists>c. acc' = acc @ [c] \<and> mean_date c \<in> set idx"
proof -
  from assms obtain d where d: "getitem idx (py_int (np_mean (snd item))) = Inr d"
    by (auto simp: analyse_change_point_def Let_def bind_err_def split: if_splits sum.splits)
  have "d \<in> set idx" using d by (rule getitem_in_set)
  with assms d show ?thesis
    by (auto simp: analyse_change_point_def Let_def bind_err_def split: if_splits sum.splits)
qed

lemma for_each_analyse:
  assumes "for_each (analyse_change_point hdi idx) items acc = Inr res"
  shows "length res = length acc + length items
         \<and> (\<forall>c \<in> set res. c \<in> set acc \<or> mean_date c \<in> set idx)"
  using assms
proof (induction items arbitrary: acc)
  case Nil
  then show ?case by simp
next
  case (Cons item items)
  from Cons.prems obtain acc1 where
    a: "analyse_change_point hdi idx item acc = Inr acc1"
       "for_each (analyse_change_point hdi idx) items acc1 = Inr res"
    by (auto simp: bind_err_def split: sum.splits)
  from analyse_change_point_appends [OF a(1)] obtain c where
    c: "acc1 = acc @ [c]" "mean_date c \<in> set idx" by blast
  from Cons.IH [OF a(2)] c show ?case by auto
qed

lemma identify_change_points_props:
  assumes "identify_change_points hdi idx (Some tr) = Inr cps"
  shows "length cps = length (filter (\<lambda>item. startswith (fst item) ''cp_'') tr)
         \<and> sorted (map mean_date cps)
         \<and> (\<forall>c \<in> set cps. mean_date c \<in> set idx)"
proof -
  from assms obtain cpa where
    run: "for_each (analyse_change_point hdi idx)
            (filter (\<lambda>item. startswith (fst item) ''cp_'') tr) [] = Inr cpa"
    and cps: "cps = sort_key mean_date cpa"
    by (auto simp: identify_change_points_def Let_def bind_err_def split: sum.splits)
  from for_each_analyse [OF run] show ?thesis
    by (simp add: cps)
qed

text \<open>Regimes: the dates of regime \<open>i\<close> are consecutive boundaries.\<close>

lemma regime_dates_closed:
  assumes "idx \<noteq> []" and "cps \<noteq> []" and "i \<le> length cps"
  shows "regime_dates idx cps i =
           Inr ((hd idx # map mean_date cps @ [last idx]) ! i,
                (hd idx # map mean_date cps @ [last idx]) ! Suc i)"
proof -
  have g0: "getitem idx 0 = Inr (hd idx)"
    using assms(1) getitem_nat [of 0 idx] by (simp add: hd_conv_nth)
  have c0: "getitem cps 0 = Inr (cps ! 0)"
    using assms(2) getitem_nat [of 0 cps] by simp
  consider "i = 0" | "0 < i" "i < length cps" | "0 < i" "i = length cps"
    using assms(3) by linarith
  then show ?thesis
  proof cases
    case 1
    then show ?thesis
      using assms(2) by (simp add: regime_dates_def g0 c0 nth_append)
  next
    case 2
    then have a: "getitem cps (int i - 1) = Inr (cps ! (i - 1))"
      using getitem_nat [of "i - 1" cps] by (simp add: of_nat_diff)
    have b: "getitem cps (int i) = Inr (cps ! i)"
      using 2 by (simp add: getitem_nat)
    have r: "regime_dates idx cps i = Inr (mean_date (cps ! (i - 1)), mean_date (cps ! i))"
      using 2 by (simp add: regime_dates_def a b)
    from 2 obtain j where j: "i = Suc j" by (cases i) auto
    show ?thesis
      using 2 unfolding r by (simp add: j nth_append)
  next
    case 3
    from 3(1) obtain j where j: "i = Suc j" by (cases i) auto
    have jl: "j < length cps" "length cps - 1 = j" using 3 j by simp_all
    have lc: "last cps = cps ! j"
      using assms(2) jl(2) by (simp add: last_conv_nth)
    have r: "regime_dates idx cps i = Inr (mean_date (last cps), last idx)"
      using 3 by (simp add: regime_dates_def getitem_last [OF assms(1)] getitem_last [OF assms(2)])
    have b1: "(hd idx # map mean_date cps @ [last idx]) ! Suc j = mean_date (cps ! j)"
      using jl(1) by (simp add: nth_append)
    have len: "length cps = Suc j" using 3(2) j by simp
    have b2: "(hd idx # map mean_date cps @ [last idx]) ! Suc (Suc j) = last idx"
      by (simp add: nth_append len)
    show ?thesis
      using r unfolding lc j by (simp only: b1 b2)
  qed
qed


lemma regime_step_closed:
  assumes "idx \<noteq> []" and "cps \<noteq> []" and "j \<le> length cps"
    and "map_of mus (''mu_'' @ str_nat j) = Some mu_s"
    and "map_of sigmas (''sigma_'' @ str_nat j) = Some sigma_s"
  shows "\<exists>r. regime_step idx cps mus sigmas j acc = Inr (acc @ [r])
            \<and> start_date r = (hd idx # map mean_date cps @ [last idx]) ! j
            \<and> end_date r = (hd idx # map mean_date cps @ [last idx]) ! Suc j"
  unfolding regime_step_def Let_def assms(4,5) regime_dates_closed [OF assms(1-3)]
  by simp

lemma regimes_loop_closed:
  assumes "idx \<noteq> []" and "cps \<noteq> []"
    and "\<forall>j \<le> length cps. \<exists>v. map_of mus (''mu_'' @ str_nat j) = Some v"
    and "\<forall>j \<le> length cps. \<exists>v. map_of sigmas (''sigma_'' @ str_nat j) = Some v"
  shows "\<exists>regs. for_each (regime_step idx cps mus sigmas) [0 ..< Suc (length cps)] [] = Inr regs
           \<and> length regs = Suc (length cps)
           \<and> (\<forall>i \<le> length cps.
                 start_date (regs ! i) = (hd idx # map mean_date cps @ [last idx]) ! i
               \<and> end_date (regs ! i) = (hd idx # map mean_date cps @ [last idx]) ! Suc i)"
proof -
  let ?bs = "hd idx # map mean_date cps @ [last idx]"
  let ?I = "\<lambda>j acc. length acc = j
              \<and> (\<forall>i < j. start_date (acc ! i) = ?bs ! i \<and> end_date (acc ! i) = ?bs ! Suc i)"
  have step: "\<exists>s'. regime_step idx cps mus sigmas j s = Inr s' \<and> ?I (Suc j) s'"
    if "j < Suc (length cps)" and "?I j s" for j s
  proof -
    from that(1) have jl: "j \<le> length cps" by simp
    from assms(3,4) jl obtain mu_s sigma_s where
      "map_of mus (''mu_'' @ str_nat j) = Some mu_s"
      "map_of sigmas (''sigma_'' @ str_nat j) = Some sigma_s"
      by blast
    from regime_step_closed [OF assms(1,2) jl this, of s] obtain r where
      r: "regime_step idx cps mus sigmas j s = Inr (s @ [r])"
         "start_date r = ?bs ! j" "end_date r = ?bs ! Suc j"
      by blast
    have "?I (Suc j) (s @ [r])"
      using that(2) r(2,3) by (auto simp: nth_append less_Suc_eq)
    with r(1) show ?thesis by blast
  qed
  have "\<exists>s'. for_each (regime_step idx cps mus sigmas) [0 ..< Suc (length cps)] [] = Inr s'
          \<and> ?I (Suc (length cps)) s'"
    by (rule for_each_upt [where I = ?I, OF step]) simp_all
  then show ?thesis
    by (auto simp: less_Suc_eq_le)
qed

lemma rv_names [simp]:
  "rv_name (cp_rv n i) = ''cp_'' @ str_nat i"
  "rv_name (mu_rv i) = ''mu_'' @ str_nat i"
  "rv_name (sigma_rv i) = ''sigma_'' @ str_nat i"
  by (simp_all add: cp_rv_def mu_rv_def sigma_rv_def free_rv_def)

lemma free_names:
  "rv_name ` set (map (cp_rv n) [0 ..< k] @ concat (map (\<lambda>i. [mu_rv i, sigma_rv i]) [0 ..< k']))
     = (\<lambda>i. ''cp_'' @ str_nat i) ` {..<k}
       \<union> (\<lambda>i. ''mu_'' @ str_nat i) ` {..<k'}
       \<union> (\<lambda>i. ''sigma_'' @ str_nat i) ` {..<k'}"
proof -
  have a: "rv_name ` set (map (cp_rv n) xs) = (\<lambda>i. ''cp_'' @ str_nat i) ` set xs" for xs
    by (induction xs) simp_all
  have b: "rv_name ` set (concat (map (\<lambda>i. [mu_rv i, sigma_rv i]) xs))
             = (\<lambda>i. ''mu_'' @ str_nat i) ` set xs \<union> (\<lambda>i. ''sigma_'' @ str_nat i) ` set xs" for xs
    by (induction xs) auto
  have c: "set [0 ..< j] = {..<j}" for j :: nat by auto
  show ?thesis
    unfolding set_append image_Un a b c by (simp only: Un_assoc)
qed

lemma card_names: "card ((\<lambda>i. p @ str_nat i) ` {..<k}) = k"
proof -
  have "inj_on (\<lambda>i. p @ str_nat i) {..<k}"
    by (rule inj_onI) (simp add: str_nat_inj)
  then show ?thesis by (simp add: card_image)
qed

lemma sorted_bounds:
  assumes "sorted (xs :: int list)" and "x \<in> set xs"
  shows "hd xs \<le> x \<and> x \<le> last xs"
proof -
  from assms(2) obtain i where i: "i < length xs" "xs ! i = x"
    by (auto simp: in_set_conv_nth)
  then have ne: "xs \<noteq> []" by auto
  have "xs ! 0 \<le> xs ! i" using assms(1) i(1) by (simp add: sorted_nth_mono)
  moreover have "xs ! i \<le> xs ! (length xs - 1)"
    using assms(1) i(1) by (simp add: sorted_nth_mono)
  ultimately show ?thesis
    using i(2) ne by (simp add: hd_conv_nth last_conv_nth)
qed


lemma posterior_of_model:
  assumes "0 \<le> K"
    and "build_bayesian_change_point_model True y K = Inr m"
    and "distinct (map fst posterior)"
    and "set (map fst posterior) = rv_name ` set (free_rvs m)"
  shows "length (filter (\<lambda>item. startswith (fst item) ''cp_'') posterior) = nat K"
    and "length (filter (\<lambda>item. startswith (fst item) ''mu_'') posterior) = Suc (nat K)"
    and "\<forall>j \<le> nat K. \<exists>v. map_of (filter (\<lambda>item. startswith (fst item) ''mu_'') posterior)
                               (''mu_'' @ str_nat j) = Some v"
    and "\<forall>j \<le> nat K. \<exists>v. map_of (filter (\<lambda>item. \<not> startswith (fst item) ''mu_''
                                               \<and> startswith (fst item) ''sigma_'') posterior)
                               (''sigma_'' @ str_nat j) = Some v"
proof -
  let ?N = "(\<lambda>i. ''cp_'' @ str_nat i) ` {..<nat K}
            \<union> (\<lambda>i. ''mu_'' @ str_nat i) ` {..<Suc (nat K)}
            \<union> (\<lambda>i. ''sigma_'' @ str_nat i) ` {..<Suc (nat K)}"
  have m: "m = map (cp_rv (length y)) [0 ..< nat K]
                @ concat (map (\<lambda>i. [mu_rv i, sigma_rv i]) [0 ..< Suc (nat K)])
                @ [likelihood_rv y]"
    using assms(2) unfolding build_model_closed [OF assms(1)] by simp
  have names: "set (map fst posterior) = ?N"
    unfolding assms(4) m free_rvs_closed free_names ..
  have cp: "{n \<in> ?N. startswith n ''cp_''} = (\<lambda>i. ''cp_'' @ str_nat i) ` {..<nat K}"
    by (auto simp: startswith_def)
  have mu: "{n \<in> ?N. startswith n ''mu_''} = (\<lambda>i. ''mu_'' @ str_nat i) ` {..<Suc (nat K)}"
    by (auto simp: startswith_def)
  show "length (filter (\<lambda>item. startswith (fst item) ''cp_'') posterior) = nat K"
    unfolding length_filter_names [OF assms(3), of "\<lambda>n. startswith n ''cp_''"] names cp
    by (rule card_names)
  show "length (filter (\<lambda>item. startswith (fst item) ''mu_'') posterior) = Suc (nat K)"
    unfolding length_filter_names [OF assms(3), of "\<lambda>n. startswith n ''mu_''"] names mu
    by (rule card_names)
  show "\<forall>j \<le> nat K. \<exists>v. map_of (filter (\<lambda>item. startswith (fst item) ''mu_'') posterior)
                               (''mu_'' @ str_nat j) = Some v"
  proof (intro allI impI)
    fix j assume "j \<le> nat K"
    then have "''mu_'' @ str_nat j \<in> set (map fst posterior)"
      unfolding names by auto
    then show "\<exists>v. map_of (filter (\<lambda>item. startswith (fst item) ''mu_'') posterior)
                      (''mu_'' @ str_nat j) = Some v"
      by (rule map_of_filter_present [where P = "\<lambda>n. startswith n ''mu_''"])
        (simp add: startswith_def)
  qed
  show "\<forall>j \<le> nat K. \<exists>v. map_of (filter (\<lambda>item. \<not> startswith (fst item) ''mu_''
                                               \<and> startswith (fst item) ''sigma_'') posterior)
                               (''sigma_'' @ str_nat j) = Some v"
  proof (intro allI impI)
    fix j assume "j \<le> nat K"
    then have "''sigma_'' @ str_nat j \<in> set (map fst posterior)"
      unfolding names by auto
    then show "\<exists>v. map_of (filter (\<lambda>item. \<not> startswith (fst item) ''mu_''
                                        \<and> startswith (fst item) ''sigma_'') posterior)
                      (''sigma_'' @ str_nat j) = Some v"
      by (rule map_of_filter_present
            [where P = "\<lambda>n. \<not> startswith n ''mu_'' \<and> startswith n ''sigma_''"])
        (simp add: startswith_def)
  qed
qed

text \<open>
  C2: take the model built for \<open>K \<ge> 1\<close> change points, a posterior whose variables are
  the free variables of that model, and the change points that
  \<open>identify_change_points\<close> returns for it (a non-empty list, ordered by date). Then
  \<open>quantify_regime_impacts\<close> returns regimes, one more than there are change points; each
  regime ends on the date on which the next one starts; the first starts on the first
  date of the return series and the last ends on its last date; and when the dates of
  the series are ascending no regime ends before it starts.
\<close>

theorem regimes_partition_series:
  assumes "1 \<le> K"
    and "build_bayesian_change_point_model True y K = Inr m"
    and "distinct (map fst posterior)"
    and "set (map fst posterior) = rv_name ` set (free_rvs m)"
    and "identify_change_points hdi idx (Some posterior) = Inr cps"
  shows "\<exists>regs. quantify_regime_impacts idx (Some posterior) (Some cps) = Inr regs
           \<and> cps \<noteq> [] \<and> length cps = nat K \<and> idx \<noteq> []
           \<and> length regs = length cps + 1
           \<and> (\<forall>i. Suc i < length regs \<longrightarrow> end_date (regs ! i) = start_date (regs ! Suc i))
           \<and> start_date (regs ! 0) = hd idx
           \<and> end_date (last regs) = last idx
           \<and> (sorted idx \<longrightarrow> (\<forall>r \<in> set regs. start_date r \<le> end_date r))"
proof -
  let ?mus = "filter (\<lambda>item. startswith (fst item) ''mu_'') posterior"
  let ?sigmas = "filter (\<lambda>item. \<not> startswith (fst item) ''mu_''
                                 \<and> startswith (fst item) ''sigma_'') posterior"
  let ?bs = "hd idx # map mean_date cps @ [last idx]"
  have K0: "0 \<le> K" using assms(1) by simp
  note pm = posterior_of_model [OF K0 assms(2,3,4)]
  note ip = identify_change_points_props [OF assms(5)]
  have len: "length cps = nat K" using ip pm(1) by simp
  then have cps_ne: "cps \<noteq> []" using assms(1) by auto
  then obtain c where "c \<in> set cps" by (cases cps) auto
  then have "mean_date c \<in> set idx" using ip by blast
  then have idx_ne: "idx \<noteq> []" by auto
  have lm: "length ?mus = Suc (length cps)" using pm(2) len by simp
  from regimes_loop_closed [OF idx_ne cps_ne, of ?mus ?sigmas] pm(3,4) len
  obtain regs where
    run: "for_each (regime_step idx cps ?mus ?sigmas) [0 ..< Suc (length cps)] [] = Inr regs"
    and lr: "length regs = Suc (length cps)"
    and dates: "\<forall>i \<le> length cps. start_date (regs ! i) = ?bs ! i
                                 \<and> end_date (regs ! i) = ?bs ! Suc i"
    by auto
  have q: "quantify_regime_impacts idx (Some posterior) (Some cps) = Inr regs"
    unfolding quantify_regime_impacts_def Let_def option.case lm by (rule run)
  have adj: "\<forall>i. Suc i < length regs \<longrightarrow> end_date (regs ! i) = start_date (regs ! Suc i)"
    using dates lr by auto
  have first: "start_date (regs ! 0) = hd idx"
    using dates by auto
  have regs_ne: "regs \<noteq> []" using lr by auto
  have "last regs = regs ! length cps"
    using lr regs_ne by (simp add: last_conv_nth)
  moreover have "?bs ! Suc (length cps) = last idx"
    by (simp add: nth_append)
  ultimately have lst: "end_date (last regs) = last idx"
    using dates by auto
  have ord: "\<forall>r \<in> set regs. start_date r \<le> end_date r" if srt: "sorted idx"
  proof
    fix r assume "r \<in> set regs"
    then obtain i where i: "i < length regs" "regs ! i = r"
      by (auto simp: in_set_conv_nth)
    have bnd: "hd idx \<le> mean_date c \<and> mean_date c \<le> last idx" if "c \<in> set cps" for c
      using sorted_bounds [OF srt] ip that by blast
    have hl: "hd idx \<le> last idx"
      using sorted_bounds [OF srt, of "hd idx"] idx_ne by simp
    have "sorted ?bs"
      using ip bnd hl by (auto simp: sorted_append)
    moreover have "Suc i < length ?bs" using i(1) lr by simp
    ultimately have "?bs ! i \<le> ?bs ! Suc i"
      by (simp only: sorted_iff_nth_Suc)
    moreover have "i \<le> length cps" using i(1) lr by simp
    ultimately show "start_date r \<le> end_date r"
      using dates i(2) by auto
  qed
  show ?thesis
    using q cps_ne len idx_ne lr adj first lst ord by auto
qed


theorem regimes_partition_series_witness:
  "(1::int) \<le> 2
   \<and> distinct (map fst trace_example)
   \<and> identify_change_points hdi_minmax idx_example (Some trace_example) = Inr cps_example
   \<and> quantify_regime_impacts idx_example (Some trace_example) (Some cps_example) = Inr regs_example
   \<and> cps_example \<noteq> []
   \<and> length regs_example = length cps_example + 1
   \<and> end_date (regs_example ! 0) = start_date (regs_example ! 1)
   \<and> end_date (regs_example ! 1) = start_date (regs_example ! 2)
   \<and> start_date (regs_example ! 0) = hd idx_example
   \<and> end_date (last regs_example) = last idx_example"
proof -
  let ?m = "map (cp_rv (length y_long_example)) [0 ..< nat 2]
              @ concat (map (\<lambda>i. [mu_rv i, sigma_rv i]) [0 ..< Suc (nat 2)])
              @ [likelihood_rv y_long_example]"
  have h1: "(1::int) \<le> 2" by simp
  have h2: "build_bayesian_change_point_model True y_long_example 2 = Inr ?m"
    by (rule build_model_closed) simp
  have h3: "distinct (map fst trace_example)"
    by (simp add: trace_example_def)
  have n2: "nat 2 = 2" by simp
  have h4: "set (map fst trace_example) = rv_name ` set (free_rvs ?m)"
    unfolding free_rvs_closed free_names n2
    by (auto simp: trace_example_def lessThan_nat_numeral lessThan_Suc str_nat.simps digit_char_def)
  from regimes_partition_series [OF h1 h2 h3 h4 identify_example]
  obtain regs where
    r: "quantify_regime_impacts idx_example (Some trace_example) (Some cps_example) = Inr regs"
       "cps_example \<noteq> []" "length regs = length cps_example + 1"
       "\<forall>i. Suc i < length regs \<longrightarrow> end_date (regs ! i) = start_date (regs ! Suc i)"
       "start_date (regs ! 0) = hd idx_example" "end_date (last regs) = last idx_example"
    by blast
  from r(1) have e: "regs = regs_example" unfolding quantify_example by simp
  have l3: "length regs_example = 3" by (simp add: regs_example_def)
  have "end_date (regs_example ! 0) = start_date (regs_example ! 1)"
    using r(4) [unfolded e, rule_format, of 0] l3 by simp
  moreover have "end_date (regs_example ! 1) = start_date (regs_example ! 2)"
    using r(4) [unfolded e, rule_format, of 1] l3 by (simp add: numeral_2_eq_2)
  ultimately have "end_date (regs_example ! 0) = start_date (regs_example ! 1)"
    "end_date (regs_example ! 1) = start_date (regs_example ! 2)"
    by blast+
  with h1 h3 identify_example quantify_example r(2,3,5,6) show ?thesis
    unfolding e by simp
qed

section \<open>Preprocessing: properties\<close>

lemma clean_frame_rows:
  "filter (\<lambda>row. snd row \<noteq> NaN)
     (map (\<lambda>row. (fst row, to_numeric (snd row)))
        (concat (map (\<lambda>row. case fst row of None \<Rightarrow> [] | Some d \<Rightarrow> [(d, snd row)])
           (map (\<lambda>row. (parse_date to_dt (fst row), snd row)) df))))
   = kept_rows to_dt to_numeric df"
  unfolding kept_rows_def
  by (induction df) (simp_all split: option.splits)

lemma clean_frame_sorted: "sorted (map fst (clean_frame to_dt to_numeric df))"
proof -
  have "sorted (map fst (filter P (map (\<lambda>row. (fst row, g (snd row))) (sort_key fst xs))))"
    for P and g :: "string \<Rightarrow> fval" and xs :: "(timestamp \<times> string) list"
  proof -
    have "map fst (map (\<lambda>row. (fst row, g (snd row))) (sort_key fst xs)) = map fst (sort_key fst xs)"
      by simp
    then have "sorted (map fst (map (\<lambda>row. (fst row, g (snd row))) (sort_key fst xs)))"
      by (simp only: sorted_sort_key)
    then show ?thesis by (rule sorted_filter)
  qed
  then show ?thesis by (simp add: clean_frame_def Let_def)
qed

lemma clean_frame_mset:
  "mset (clean_frame to_dt to_numeric df) = mset (kept_rows to_dt to_numeric df)"
proof -
  have "mset (filter P (map g (sort_key fst xs))) = mset (filter P (map g xs))"
    for P and g :: "timestamp \<times> string \<Rightarrow> timestamp \<times> fval" and xs
    by simp
  then show ?thesis
    unfolding clean_frame_def Let_def clean_frame_rows [symmetric] by blast
qed

text \<open>
  C7, as the code behaves: the cleaned frame is ascending by date; as a multiset of
  (date, price) rows it is exactly the rows of the input whose date \<open>parse_date\<close> turns
  into a timestamp and whose price \<open>to_numeric\<close> turns into something other than NaN, each
  as often as it occurs (rows with equal dates are all kept); and both analyzers clean
  the frame alike.
\<close>

theorem preprocess_sorted_and_retains:
  "sorted (map fst (df_processed (preprocess_data to_dt to_numeric df)))
   \<and> mset (df_processed (preprocess_data to_dt to_numeric df))
       = mset (kept_rows to_dt to_numeric df)
   \<and> fst (load_and_preprocess_data to_dt to_numeric df)
       = df_processed (preprocess_data to_dt to_numeric df)"
  by (simp add: preprocess_data_def load_and_preprocess_data_def Let_def
      clean_frame_sorted clean_frame_mset)

lemma clean_frame_example:
  "clean_frame to_datetime_example to_numeric_example raw_example =
     [(18262 * ns_per_day, Finite 10), (18263 * ns_per_day, Finite 11),
      (18263 * ns_per_day, Finite (25 / 2)), (18264 * ns_per_day, PosInf)]"
  by (simp add: clean_frame_def to_datetime_example_def to_numeric_example_def raw_example_def
      parse_date_def date_formats_def Let_def ns_per_day_def)

text \<open>
  C7 as stated fails: of the six rows of the example two carry the date 2020-01-02 and
  both are kept, so the dates of the cleaned frame are not distinct; and the row whose
  price is \<open>inf\<close>, which is no finite number, is kept as well.
\<close>

theorem preprocess_not_deduplicated_counterexample:
  "\<not> distinct (map fst (df_processed
        (preprocess_data to_datetime_example to_numeric_example raw_example)))
   \<and> (18264 * ns_per_day, PosInf)
        \<in> set (df_processed (preprocess_data to_datetime_example to_numeric_example raw_example))"
  by (simp add: preprocess_data_def Let_def clean_frame_example)


section \<open>Log returns: properties\<close>

lemma filter_drop_first:
  assumes "r \<noteq> []" and "\<not> P (hd r)" and "\<forall>x \<in> set (tl r). P x"
  shows "filter P r = tl r"
  using assms by (cases r) simp_all

lemma ratio_rows:
  assumes "map snd price = map Finite xs" and "\<forall>x \<in> set xs. 0 < x"
  defines "r \<equiv> series_map flog (series_map2 fdiv price (shift1 price))"
  shows "length r = length price"
    and "price \<noteq> [] \<Longrightarrow> snd (r ! 0) = NaN"
    and "Suc i < length price \<Longrightarrow>
           r ! Suc i = (fst (price ! Suc i), Finite (ln (xs ! Suc i / xs ! i)))"
proof -
  have lx: "length xs = length price"
    using assms(1) by (metis length_map)
  have ls: "length (shift1 price) = length price"
    by (cases "price = []") (simp_all add: shift1_def)
  show len: "length r = length price"
    by (simp add: r_def series_map_def series_map2_def ls)
  have row: "r ! j = (fst (price ! j), flog (fdiv (snd (price ! j)) (snd (shift1 price ! j))))"
    if "j < length price" for j
    using that ls by (simp add: r_def series_map_def series_map2_def)
  have val: "snd (price ! j) = Finite (xs ! j)" if "j < length price" for j
  proof -
    have "map snd price ! j = map Finite xs ! j" using assms(1) by simp
    then show ?thesis using that lx by simp
  qed
  show "snd (r ! 0) = NaN" if "price \<noteq> []"
  proof -
    have "0 < length price" using that by simp
    moreover have "snd (shift1 price ! 0) = NaN"
      using that by (simp add: shift1_def)
    moreover have "fdiv a NaN = NaN" for a by (cases a) simp_all
    ultimately show ?thesis by (simp add: row)
  qed
  show "r ! Suc i = (fst (price ! Suc i), Finite (ln (xs ! Suc i / xs ! i)))"
    if "Suc i < length price"
  proof -
    have i: "i < length price" using that by simp
    have "shift1 price ! Suc i = (fst (price ! Suc i), butlast (map snd price) ! i)"
      using that by (simp add: shift1_def)
    also have "butlast (map snd price) ! i = snd (price ! i)"
      using that by (simp add: nth_butlast)
    finally have prev: "snd (shift1 price ! Suc i) = Finite (xs ! i)"
      using val [OF i] by simp
    have pos: "0 < xs ! i" "0 < xs ! Suc i"
      using assms(2) that i lx by simp_all
    then have "0 < xs ! Suc i / xs ! i" by simp
    then show ?thesis
      using pos by (simp add: row [OF that] val [OF that] prev)
  qed
qed

text \<open>
  The expression \<open>np.log(price / price.shift(1)).dropna()\<close> on a non-empty series of
  positive finite prices.
\<close>

lemma log_returns_of_positive:
  assumes "price \<noteq> []" and "map snd price = map Finite xs" and "\<forall>x \<in> set xs. 0 < x"
  shows "length (log_returns_of price) + 1 = length price
         \<and> (\<forall>i. Suc i < length price \<longrightarrow>
               log_returns_of price ! i
                 = (fst (price ! Suc i), Finite (ln (xs ! Suc i / xs ! i))))"
proof -
  define r where "r = series_map flog (series_map2 fdiv price (shift1 price))"
  note rr = ratio_rows [OF assms(2,3), folded r_def]
  have ne: "r \<noteq> []" using rr(1) assms(1) by auto
  have first: "\<not> snd (hd r) \<noteq> NaN"
    using rr(2) [OF assms(1)] ne by (simp add: hd_conv_nth)
  have rest: "\<forall>x \<in> set (tl r). snd x \<noteq> NaN"
  proof
    fix x assume "x \<in> set (tl r)"
    then obtain i where i: "i < length (tl r)" "tl r ! i = x"
      by (auto simp: in_set_conv_nth)
    then have "Suc i < length price" using rr(1) by simp
    from rr(3) [OF this] have "snd (r ! Suc i) \<noteq> NaN" by simp
    moreover have "tl r ! i = r ! Suc i" using i(1) by (simp add: nth_tl)
    ultimately show "snd x \<noteq> NaN" using i(2) by simp
  qed
  have lr: "log_returns_of price = tl r"
    unfolding log_returns_of_def dropna_def r_def [symmetric]
    by (rule filter_drop_first [OF ne first rest])
  have "length (tl r) + 1 = length price"
    using rr(1) assms(1) by simp
  moreover have "tl r ! i = (fst (price ! Suc i), Finite (ln (xs ! Suc i / xs ! i)))"
    if "Suc i < length price" for i
    using rr(3) [OF that] that rr(1) by (simp add: nth_tl)
  ultimately show ?thesis
    unfolding lr by blast
qed

lemma clean_frame_price_example:
  "clean_frame to_datetime_example to_numeric_example raw_prices_example = price_example"
  by (simp add: clean_frame_def to_datetime_example_def to_numeric_example_def
      raw_prices_example_def price_example_def parse_date_def date_formats_def Let_def
      ns_per_day_def)

text \<open>
  C9: whenever the frame that \<open>preprocess_data\<close> cleans out of the raw rows has at least
  one row and positive finite prices, the log-return series that \<open>preprocess_data\<close>
  returns has one row less than the cleaned price series, and its row \<open>i\<close> carries the
  date of price row \<open>i + 1\<close> and the value \<open>ln(price[i+1] / price[i])\<close>, so that the first
  price row has no row in the return series; \<open>load_and_preprocess_data\<close> returns the
  same cleaned frame and, as its log returns, a series with the same length and rows.
\<close>

theorem log_returns_one_shorter:
  assumes "df_processed (preprocess_data to_dt to_numeric df) = price"
    and "price \<noteq> []" and "map snd price = map Finite xs" and "\<forall>x \<in> set xs. 0 < x"
  shows "length (log_returns (preprocess_data to_dt to_numeric df)) + 1 = length price
         \<and> (\<forall>i. Suc i < length price \<longrightarrow>
               log_returns (preprocess_data to_dt to_numeric df) ! i
                 = (fst (price ! Suc i), Finite (ln (xs ! Suc i / xs ! i))))
         \<and> fst (load_and_preprocess_data to_dt to_numeric df) = price
         \<and> length (snd (load_and_preprocess_data to_dt to_numeric df)) + 1 = length price
         \<and> (\<forall>i. Suc i < length price \<longrightarrow>
               snd (load_and_preprocess_data to_dt to_numeric df) ! i
                 = (fst (price ! Suc i), Finite (ln (xs ! Suc i / xs ! i))))"
proof -
  have cf: "clean_frame to_dt to_numeric df = price"
    using assms(1) by (simp add: preprocess_data_def Let_def)
  have a: "log_returns (preprocess_data to_dt to_numeric df) = log_returns_of price"
    by (simp add: preprocess_data_def Let_def cf)
  have b: "load_and_preprocess_data to_dt to_numeric df = (price, log_returns_of price)"
    by (simp add: load_and_preprocess_data_def Let_def cf)
  from log_returns_of_positive [OF assms(2,3,4)] show ?thesis
    unfolding a b fst_conv snd_conv by blast
qed

theorem log_returns_one_shorter_witness:
  "df_processed (preprocess_data to_datetime_example to_numeric_example raw_prices_example)
     = price_example
   \<and> price_example \<noteq> [] \<and> map snd price_example = map Finite [10, 11, 25 / 2]
   \<and> length (log_returns
         (preprocess_data to_datetime_example to_numeric_example raw_prices_example)) + 1
       = length raw_prices_example
   \<and> log_returns (preprocess_data to_datetime_example to_numeric_example raw_prices_example)
       ! 0 = (18263 * ns_per_day, Finite (ln (11 / 10)))
   \<and> log_returns (preprocess_data to_datetime_example to_numeric_example raw_prices_example)
       ! 1 = (18264 * ns_per_day, Finite (ln ((25 / 2) / 11)))
   \<and> length (snd
         (load_and_preprocess_data to_datetime_example to_numeric_example raw_prices_example)) + 1
       = length raw_prices_example
   \<and> snd (load_and_preprocess_data to_datetime_example to_numeric_example raw_prices_example)
       ! 0 = (18263 * ns_per_day, Finite (ln (11 / 10)))
   \<and> snd (load_and_preprocess_data to_datetime_example to_numeric_example raw_prices_example)
       ! 1 = (18264 * ns_per_day, Finite (ln ((25 / 2) / 11)))"
proof -
  have h0: "df_processed
              (preprocess_data to_datetime_example to_numeric_example raw_prices_example)
            = price_example"
    by (simp add: preprocess_data_def Let_def clean_frame_price_example)
  have h1: "price_example \<noteq> []" by (simp add: price_example_def)
  have h2: "map snd price_example = map Finite [10, 11, 25 / 2]"
    by (simp add: price_example_def)
  have h3: "\<forall>x \<in> set [10, 11, 25 / 2 :: real]. 0 < x" by simp
  note t = log_returns_one_shorter [OF h0 h1 h2 h3]
  have l: "length price_example = 3" "length raw_prices_example = 3"
    by (simp_all add: price_example_def raw_prices_example_def)
  have n: "fst (price_example ! Suc 0) = 18263 * ns_per_day"
    "fst (price_example ! Suc 1) = 18264 * ns_per_day"
    by (simp_all add: price_example_def)
  have p0: "log_returns
              (preprocess_data to_datetime_example to_numeric_example raw_prices_example) ! 0
            = (18263 * ns_per_day, Finite (ln (11 / 10)))"
    using t l n by simp
  have p1: "log_returns
              (preprocess_data to_datetime_example to_numeric_example raw_prices_example) ! 1
            = (18264 * ns_per_day, Finite (ln ((25 / 2) / 11)))"
    using t l n by simp
  have q0: "snd (load_and_preprocess_data to_datetime_example to_numeric_example
                   raw_prices_example) ! 0
            = (18263 * ns_per_day, Finite (ln (11 / 10)))"
    using t l n by simp
  have q1: "snd (load_and_preprocess_data to_datetime_example to_numeric_example
                   raw_prices_example) ! 1
            = (18264 * ns_per_day, Finite (ln ((25 / 2) / 11)))"
    using t l n by simp
  show ?thesis
    using h0 h1 h2 t l p0 p1 q0 q1 by simp
qed

section \<open>Stationarity tests and change point detection: properties\<close>

lemma dropna_all_finite: "\<forall>r \<in> set s. snd r \<noteq> NaN \<Longrightarrow> dropna s = s"
  by (simp add: dropna_def)

text \<open>
  C10 fails on the constant series: \<open>adfuller\<close> raises \<open>ValueError\<close> on it, the call is
  outside any \<open>try\<close>, and the exception leaves \<open>test_stationarity\<close>.
\<close>

theorem test_stationarity_constant_series_raises:
  "test_stationarity adfuller_example kpss_example constant_series ''Brent Oil Prices''
     = Inl ValueError"
proof -
  have "dropna constant_series = constant_series"
    by (rule dropna_all_finite) (simp add: constant_series_def)
  then show ?thesis
    by (simp add: test_stationarity_def adfuller_example_def constant_series_def)
qed

lemma test_stationarity_adfuller_raises:
  "adfuller (map snd (dropna series)) = Inl e
     \<Longrightarrow> test_stationarity adfuller kpss series title = Inl e"
  by (simp add: test_stationarity_def)

lemma test_stationarity_kpss_raises:
  "adfuller (map snd (dropna series)) = Inr a \<Longrightarrow> kpss (map snd (dropna series)) = Inl e
     \<Longrightarrow> \<exists>out. test_stationarity adfuller kpss series title
                 = Inr (out @ [Note ''KPSS test could not be performed''])"
  by (simp add: test_stationarity_def Let_def)

text \<open>
  C8 fails on a series of 400 returns whose mean shifts at position 200, for which Pelt
  reports the break at 200 and binary segmentation reports ten breaks: the two lists
  handed back end with 400, the length of the series, which only the plotted and
  printed lines leave out.
\<close>

theorem change_point_analysis_returns_final_index:
  "change_point_analysis (Some (pelt_example, binseg_example)) returns_example =
     Inr \<lparr>shown_pelt = [200 * ns_per_day],
          shown_binseg =
            map (\<lambda>d. d * ns_per_day) [35, 70, 105, 140, 200, 235, 270, 305, 340, 370],
          returned = ([200, 400], [35, 70, 105, 140, 200, 235, 270, 305, 340, 370, 400])\<rparr>
   \<and> length returns_example = 400"
proof -
  have d: "dropna returns_example = returns_example"
    by (rule dropna_all_finite) (simp add: returns_example_def)
  have f: "map fst returns_example = map (\<lambda>d. int d * ns_per_day) [0 ..< 400]"
    by (simp add: returns_example_def)
  have l: "length (map snd returns_example) = 400"
    by (simp add: returns_example_def)
  show ?thesis
    unfolding change_point_analysis_def Let_def d f l option.case prod.case
      pelt_example_def binseg_example_def
    by (simp add: marked_dates_def getitem_def returns_example_def)
qed

end
